theory Spec2Isabelle
  imports Complex_Main
begin

section \<open>Python strings\<close>

text \<open>
  A Python \<open>str\<close> is a sequence of Unicode code points; it is modelled as the list of
  those code points. \<open>lit\<close> turns an ASCII literal into such a list.
\<close>

type_synonym pystr = "nat list"

definition lit :: "string \<Rightarrow> pystr" where
  "lit s = map of_char s"

text \<open>\<open>str.isspace\<close> of one code point: the characters that \<open>str.strip()\<close> removes.\<close>

definition isspace :: "nat \<Rightarrow> bool" where
  "isspace c = ((9 \<le> c \<and> c \<le> 13) \<or> (28 \<le> c \<and> c \<le> 32) \<or> c = 133 \<or> c = 160
     \<or> c = 5760 \<or> (8192 \<le> c \<and> c \<le> 8202) \<or> c = 8232 \<or> c = 8233 \<or> c = 8239
     \<or> c = 8287 \<or> c = 12288)"

text \<open>The line boundaries of \<open>str.splitlines()\<close>; the pair CR LF counts as one.\<close>

definition is_linebreak :: "nat \<Rightarrow> bool" where
  "is_linebreak c = ((10 \<le> c \<and> c \<le> 13) \<or> (28 \<le> c \<and> c \<le> 30) \<or> c = 133
     \<or> c = 8232 \<or> c = 8233)"

fun split_from :: "pystr \<Rightarrow> pystr \<Rightarrow> pystr list" where
  "split_from cur [] = (if cur = [] then [] else [cur])"
| "split_from cur [c] = (if is_linebreak c then [cur] else [cur @ [c]])"
| "split_from cur (c # d # cs) =
     (if c = 13 \<and> d = 10 then cur # split_from [] cs
      else if is_linebreak c then cur # split_from [] (d # cs)
      else split_from (cur @ [c]) (d # cs))"

definition splitlines :: "pystr \<Rightarrow> pystr list" where
  "splitlines text = split_from [] text"

definition strip :: "pystr \<Rightarrow> pystr" where
  "strip s = rev (dropWhile isspace (rev (dropWhile isspace s)))"

definition endswith :: "pystr \<Rightarrow> pystr \<Rightarrow> bool" where
  "endswith s suffix = (length suffix \<le> length s \<and> drop (length s - length suffix) s = suffix)"

text \<open>\<open>contains sub s\<close> is Python's \<open>sub in s\<close>.\<close>

fun contains :: "pystr \<Rightarrow> pystr \<Rightarrow> bool" where
  "contains sub [] = (sub = [])"
| "contains sub (c # cs) = (take (length sub) (c # cs) = sub \<or> contains sub cs)"

text \<open>\<open>join_str sep xs\<close> is \<open>sep.join(xs)\<close>.\<close>

fun join_str :: "pystr \<Rightarrow> pystr list \<Rightarrow> pystr" where
  "join_str sep [] = []"
| "join_str sep [x] = x"
| "join_str sep (x # y # ys) = x @ sep @ join_str sep (y # ys)"

text \<open>\<open>rsplit_head sep s\<close> is \<open>s.rsplit(sep, 1)[0]\<close> for a one-character separator: the part
  before the last separator, or all of \<open>s\<close> when it has none.\<close>

definition rsplit_head :: "nat \<Rightarrow> pystr \<Rightarrow> pystr" where
  "rsplit_head sep s =
     (if sep \<in> set s then rev (tl (dropWhile (\<lambda>c. c \<noteq> sep) (rev s))) else s)"

text \<open>The decimal rendering of a non-negative integer, as an f-string prints it.\<close>

fun str_nat :: "nat \<Rightarrow> pystr" where
  "str_nat n = (if n < 10 then [48 + n] else str_nat (n div 10) @ [48 + n mod 10])"

section \<open>Application state\<close>

text \<open>
  The module's globals \<open>latest_playlists\<close>, \<open>latest_segments\<close> and \<open>updater_threads\<close> are
  dictionaries keyed by \<open>(name, version)\<close>. The \<open>tokens\<close> table has \<open>token\<close> as primary key,
  so it is a map from the token to the rest of the row. Instants are the values of
  \<open>time.time()\<close>, compared by \<open><\<close> and \<open>>\<close> only.

  A started thread and its \<open>threading.Event\<close> are objects on the heap; \<open>spawned\<close> lists
  every thread started so far, with the flag of its event, and the handle kept in
  \<open>updater_threads\<close> is the position of the thread in that list.
\<close>

type_synonym chan_key = "pystr \<times> pystr"

record token_row =
  expires :: real
  channel_name :: pystr
  channel_version :: pystr
  play_url :: pystr

record worker_thread =
  w_name :: pystr
  w_version :: pystr
  w_source_url :: pystr
  stop_event :: bool

record app_state =
  latest_playlists :: "chan_key \<rightharpoonup> pystr"
  latest_segments :: "chan_key \<rightharpoonup> pystr list"
  updater_threads :: "chan_key \<rightharpoonup> nat"
  spawned :: "worker_thread list"
  tokens :: "pystr \<rightharpoonup> token_row"

text \<open>The state when the module has been loaded and the tables are new: the three
  dictionaries are empty, no thread has been started, no token stored.\<close>

definition initial_state :: app_state where
  "initial_state =
     \<lparr>latest_playlists = Map.empty, latest_segments = Map.empty,
      updater_threads = Map.empty, spawned = [], tokens = Map.empty\<rparr>"

section \<open>Token CRUD\<close>

text \<open>\<open>validate_token\<close> returns \<open>None\<close> or the pair \<open>(channel_name, channel_version)\<close>, and
  the state with the row deleted when it found the row expired.\<close>

definition validate_token :: "real \<Rightarrow> pystr \<Rightarrow> app_state \<Rightarrow> chan_key option \<times> app_state" where
  "validate_token now token s =
     (case tokens s token of
        None \<Rightarrow> (None, s)
      | Some row \<Rightarrow>
          if now > expires row then (None, s\<lparr>tokens := (tokens s)(token := None)\<rparr>)
          else (Some (channel_name row, channel_version row), s))"

definition cleanup_expired_tokens :: "real \<Rightarrow> app_state \<Rightarrow> app_state" where
  "cleanup_expired_tokens now s =
     s\<lparr>tokens := (\<lambda>t. case tokens s t of
                         None \<Rightarrow> None
                       | Some row \<Rightarrow> if expires row < now then None else Some row)\<rparr>"

section \<open>Playlist updater worker\<close>

text \<open>
  What \<open>requests.get\<close> followed by \<open>raise_for_status\<close> delivers: an exception, or the
  text of the response. The same type stands for the upstream answer to a segment fetch.
\<close>

datatype fetch_result = FetchFailed | FetchOk pystr

text \<open>
  What \<open>requests.get\<close> itself gives: an exception (no connection, a timeout), or the final
  response with its status code and its text. \<open>raise_for_status\<close> is the method of the
  library: it raises for the status codes from 400 to 599 and for no other.
  \<open>fetch_step\<close> is the first two statements of the \<open>try\<close> block.
\<close>

datatype http_reply = NoReply | Reply nat pystr

definition raise_for_status :: "nat \<Rightarrow> bool" where
  "raise_for_status status_code = (400 \<le> status_code \<and> status_code < 600)"

definition fetch_step :: "http_reply \<Rightarrow> fetch_result" where
  "fetch_step reply =
     (case reply of
        NoReply \<Rightarrow> FetchFailed
      | Reply status_code body \<Rightarrow>
          if raise_for_status status_code then FetchFailed else FetchOk body)"

definition is_segment_line :: "pystr \<Rightarrow> bool" where
  "is_segment_line line =
     (endswith line (lit ''.ts'') \<or> endswith line (lit ''.aac'') \<or> contains (lit ''.ts?'') line)"

text \<open>The f-string \<open>/seg/{name}/{version}/{idx}\<close>.\<close>

definition seg_path :: "pystr \<Rightarrow> pystr \<Rightarrow> nat \<Rightarrow> pystr" where
  "seg_path name version idx =
     lit ''/seg/'' @ name @ lit ''/'' @ version @ lit ''/'' @ str_nat idx"

definition base_url_of :: "pystr \<Rightarrow> pystr" where
  "base_url_of source_url = rsplit_head 47 source_url @ lit ''/''"

text \<open>
  The \<open>for\<close> loop of \<open>update_worker\<close>, with its two accumulators. \<open>urljoin\<close> is
  \<open>urllib.parse.urljoin\<close>, a function of the standard library that is taken as a
  parameter; it returns \<open>None\<close> where the library raises \<open>ValueError\<close>, and then the
  whole loop is left through the \<open>except\<close> clause.
\<close>

fun rewrite_lines ::
  "(pystr \<Rightarrow> pystr \<Rightarrow> pystr option) \<Rightarrow> pystr \<Rightarrow> pystr \<Rightarrow> pystr \<Rightarrow> pystr list
     \<Rightarrow> pystr list \<Rightarrow> pystr list \<Rightarrow> (pystr list \<times> pystr list) option" where
  "rewrite_lines urljoin name version base_url [] new_segs new_playlist_lines =
     Some (new_segs, new_playlist_lines)"
| "rewrite_lines urljoin name version base_url (raw # lines) new_segs new_playlist_lines =
     (let line = strip raw in
      if line = [] then
        rewrite_lines urljoin name version base_url lines new_segs new_playlist_lines
      else if is_segment_line line then
        (case urljoin base_url line of
           None \<Rightarrow> None
         | Some full \<Rightarrow>
             rewrite_lines urljoin name version base_url lines (new_segs @ [full])
               (new_playlist_lines @ [seg_path name version (length new_segs)]))
      else
        rewrite_lines urljoin name version base_url lines new_segs
          (new_playlist_lines @ [line]))"

text \<open>The body of the \<open>try\<close> up to the two assignments: the new segment table and the
  lines of the new playlist, or \<open>None\<close> when an exception left the block.\<close>

definition rewrite ::
  "(pystr \<Rightarrow> pystr \<Rightarrow> pystr option) \<Rightarrow> pystr \<Rightarrow> pystr \<Rightarrow> pystr \<Rightarrow> pystr
     \<Rightarrow> (pystr list \<times> pystr list) option" where
  "rewrite urljoin name version source_url text =
     rewrite_lines urljoin name version (base_url_of source_url) (splitlines text) [] []"

text \<open>The two assignments that end the \<open>try\<close> block, one function each.\<close>

definition store_segments :: "pystr \<Rightarrow> pystr \<Rightarrow> pystr list \<Rightarrow> app_state \<Rightarrow> app_state" where
  "store_segments name version new_segs s =
     s\<lparr>latest_segments := (latest_segments s)((name, version) \<mapsto> new_segs)\<rparr>"

definition store_playlist :: "pystr \<Rightarrow> pystr \<Rightarrow> pystr list \<Rightarrow> app_state \<Rightarrow> app_state" where
  "store_playlist name version new_playlist_lines s =
     s\<lparr>latest_playlists :=
         (latest_playlists s)((name, version) \<mapsto> join_str [10] new_playlist_lines)\<rparr>"

text \<open>One pass through the body of the \<open>while\<close> loop, run without interruption.
  \<open>fetched\<close> is what the fetch delivered and \<open>now\<close> the instant read by the sweep.\<close>

definition worker_cycle ::
  "(pystr \<Rightarrow> pystr \<Rightarrow> pystr option) \<Rightarrow> pystr \<Rightarrow> pystr \<Rightarrow> pystr \<Rightarrow> fetch_result \<Rightarrow> real
     \<Rightarrow> app_state \<Rightarrow> app_state" where
  "worker_cycle urljoin name version source_url fetched now s =
     cleanup_expired_tokens now
       (case fetched of
          FetchFailed \<Rightarrow> s
        | FetchOk text \<Rightarrow>
            (case rewrite urljoin name version source_url text of
               None \<Rightarrow> s
             | Some (new_segs, new_playlist_lines) \<Rightarrow>
                 store_playlist name version new_playlist_lines
                   (store_segments name version new_segs s)))"

text \<open>The \<open>while\<close> loop, over what the environment delivers at each pass: whether the
  stop event is found set at the loop test, the result of the fetch, the instant of the
  sweep. The loop ends when it finds the event set (or when the trace ends).\<close>

fun update_worker ::
  "(pystr \<Rightarrow> pystr \<Rightarrow> pystr option) \<Rightarrow> pystr \<Rightarrow> pystr \<Rightarrow> pystr
     \<Rightarrow> (bool \<times> fetch_result \<times> real) list \<Rightarrow> app_state \<Rightarrow> app_state" where
  "update_worker urljoin name version source_url [] s = s"
| "update_worker urljoin name version source_url ((is_set, fetched, now) # rest) s =
     (if is_set then s
      else update_worker urljoin name version source_url rest
             (worker_cycle urljoin name version source_url fetched now s))"

subsection \<open>The worker statement by statement\<close>

text \<open>
  Other threads run between the statements of the worker. The control points that matter
  are: the loop test, the end of the \<open>for\<close> loop (both local lists computed), the point
  between the two assignments, and the point after the \<open>try\<close> statement.
\<close>

datatype worker_pc =
    LoopTop
  | Computed "pystr list" "pystr list"
  | SegsStored "pystr list"
  | AfterTry

inductive worker_step ::
  "(pystr \<Rightarrow> pystr \<Rightarrow> pystr option) \<Rightarrow> pystr \<Rightarrow> pystr \<Rightarrow> pystr
     \<Rightarrow> worker_pc \<times> app_state \<Rightarrow> worker_pc \<times> app_state \<Rightarrow> bool"
  for urljoin name version source_url where
  fetch_raised:
    "worker_step urljoin name version source_url (LoopTop, s) (AfterTry, s)"
| rewrite_raised:
    "rewrite urljoin name version source_url text = None \<Longrightarrow>
     worker_step urljoin name version source_url (LoopTop, s) (AfterTry, s)"
| rewritten:
    "rewrite urljoin name version source_url text = Some (new_segs, new_playlist_lines) \<Longrightarrow>
     worker_step urljoin name version source_url
       (LoopTop, s) (Computed new_segs new_playlist_lines, s)"
| segments_assigned:
    "worker_step urljoin name version source_url
       (Computed new_segs new_playlist_lines, s)
       (SegsStored new_playlist_lines, store_segments name version new_segs s)"
| playlist_assigned:
    "worker_step urljoin name version source_url
       (SegsStored new_playlist_lines, s)
       (AfterTry, store_playlist name version new_playlist_lines s)"
| swept:
    "worker_step urljoin name version source_url
       (AfterTry, s) (LoopTop, cleanup_expired_tokens now s)"

section \<open>Supervisor\<close>

definition start_updater :: "pystr \<Rightarrow> pystr \<Rightarrow> pystr \<Rightarrow> app_state \<Rightarrow> app_state" where
  "start_updater name version source_url s =
     (let key = (name, version) in
      if key \<in> dom (updater_threads s) then s
      else s\<lparr>updater_threads := (updater_threads s)(key \<mapsto> length (spawned s)),
             spawned := spawned s @
               [\<lparr>w_name = name, w_version = version, w_source_url = source_url,
                 stop_event = False\<rparr>]\<rparr>)"

definition stop_updater :: "pystr \<Rightarrow> pystr \<Rightarrow> app_state \<Rightarrow> app_state" where
  "stop_updater name version s =
     (let key = (name, version) in
      case updater_threads s key of
        None \<Rightarrow> s
      | Some h \<Rightarrow>
          s\<lparr>updater_threads := (updater_threads s)(key := None),
            spawned := (spawned s)[h := (spawned s ! h)\<lparr>stop_event := True\<rparr>]\<rparr>)"

datatype supervisor_op = Start pystr pystr pystr | Stop pystr pystr

fun supervise :: "supervisor_op \<Rightarrow> app_state \<Rightarrow> app_state" where
  "supervise (Start name version source_url) s = start_updater name version source_url s"
| "supervise (Stop name version) s = stop_updater name version s"

definition run_ops :: "supervisor_op list \<Rightarrow> app_state \<Rightarrow> app_state" where
  "run_ops ops s = fold supervise ops s"

text \<open>A live worker of a channel: a started thread of that channel whose stop event has
  not been set.\<close>

definition is_live :: "app_state \<Rightarrow> chan_key \<Rightarrow> nat \<Rightarrow> bool" where
  "is_live s key i =
     (i < length (spawned s) \<and> (w_name (spawned s ! i), w_version (spawned s ! i)) = key
      \<and> stop_event (spawned s ! i) = False)"

definition live_workers :: "app_state \<Rightarrow> chan_key \<Rightarrow> nat list" where
  "live_workers s key = filter (is_live s key) [0..<length (spawned s)]"

section \<open>Flask routes\<close>

text \<open>\<open>Abort code description\<close> is \<open>abort(code, description)\<close>; \<open>Response body mimetype\<close> is
  a \<open>Response\<close> with the default status 200.\<close>

datatype response = Abort nat pystr | Response pystr pystr

fun status_of :: "response \<Rightarrow> nat" where
  "status_of (Abort code description) = code"
| "status_of (Response body mimetype) = 200"

text \<open>\<open>token_arg\<close> is the query parameter \<open>token\<close>, \<open>None\<close> when the query has none.\<close>

definition play_index ::
  "app_state \<Rightarrow> real \<Rightarrow> pystr \<Rightarrow> pystr \<Rightarrow> pystr option \<Rightarrow> response \<times> app_state" where
  "play_index s now name version token_arg =
     (let token = (case token_arg of None \<Rightarrow> [] | Some t \<Rightarrow> t) in
      if token = [] then (Abort 403 (lit ''Missing token''), s)
      else
        (case validate_token now token s of
           (None, s') \<Rightarrow> (Abort 403 (lit ''Invalid or expired token''), s')
         | (Some (valid_name, valid_version), s') \<Rightarrow>
             if valid_name \<noteq> name \<or> valid_version \<noteq> version then
               (Abort 403 (lit ''Token mismatch''), s')
             else
               (case latest_playlists s' (name, version) of
                  None \<Rightarrow> (Abort 503 (lit ''Playlist not ready''), s')
                | Some playlist \<Rightarrow>
                    if playlist = [] then (Abort 503 (lit ''Playlist not ready''), s')
                    else (Response playlist (lit ''application/vnd.apple.mpegurl''), s'))))"

text \<open>\<open>segment\<close> returns the response and the list of the URLs it fetched upstream;
  \<open>upstream\<close> is the answer of the origin to a GET of a URL.\<close>

definition segment ::
  "(pystr \<Rightarrow> fetch_result) \<Rightarrow> app_state \<Rightarrow> pystr \<Rightarrow> pystr \<Rightarrow> int \<Rightarrow> response \<times> pystr list" where
  "segment upstream s name version seg_id =
     (let segs = (case latest_segments s (name, version) of None \<Rightarrow> [] | Some v \<Rightarrow> v) in
      if seg_id < 0 \<or> seg_id \<ge> int (length segs) then
        (Abort 404 (lit ''Segment not found''), [])
      else
        (let seg_url = segs ! nat seg_id in
         case upstream seg_url of
           FetchFailed \<Rightarrow> (Abort 502 (lit ''Upstream fetch failed''), [seg_url])
         | FetchOk content \<Rightarrow> (Response content (lit ''video/MP2T''), [seg_url])))"

section \<open>Worker and gateway interleaved\<close>

text \<open>A step of the system is a step of the worker, or a whole request served by the
  gateway while the worker stands at some control point.\<close>

inductive system_step ::
  "(pystr \<Rightarrow> pystr \<Rightarrow> pystr option) \<Rightarrow> pystr \<Rightarrow> pystr \<Rightarrow> pystr
     \<Rightarrow> worker_pc \<times> app_state \<Rightarrow> worker_pc \<times> app_state \<Rightarrow> bool"
  for urljoin name version source_url where
  worker:
    "worker_step urljoin name version source_url c c' \<Longrightarrow>
     system_step urljoin name version source_url c c'"
| playlist_request:
    "system_step urljoin name version source_url
       (pc, s) (pc, snd (play_index s now req_name req_version token_arg))"
| segment_request:
    "system_step urljoin name version source_url (pc, s) (pc, s)"

inductive reachable ::
  "(pystr \<Rightarrow> pystr \<Rightarrow> pystr option) \<Rightarrow> pystr \<Rightarrow> pystr \<Rightarrow> pystr
     \<Rightarrow> app_state \<Rightarrow> worker_pc \<times> app_state \<Rightarrow> bool"
  for urljoin name version source_url s0 where
  start: "reachable urljoin name version source_url s0 (LoopTop, s0)"
| step:
    "reachable urljoin name version source_url s0 c \<Longrightarrow>
     system_step urljoin name version source_url c c' \<Longrightarrow>
     reachable urljoin name version source_url s0 c'"

text \<open>What a reader finds for a channel: the entries of the two dictionaries.\<close>

definition observe :: "app_state \<Rightarrow> chan_key \<Rightarrow> pystr option \<times> pystr list option" where
  "observe s key = (latest_playlists s key, latest_segments s key)"

section \<open>Notions used by the properties\<close>

text \<open>The lines that the \<open>for\<close> loop does not skip: every line of the body stripped of its
  leading and trailing whitespace, the empty results dropped.\<close>

definition kept_lines :: "pystr list \<Rightarrow> pystr list" where
  "kept_lines raws = filter (\<lambda>line. line \<noteq> []) (map strip raws)"

definition stripped_lines :: "pystr \<Rightarrow> pystr list" where
  "stripped_lines text = kept_lines (splitlines text)"

text \<open>\<open>cycle_output\<close>: the two lists are what the \<open>try\<close> block computes from some body.
  \<open>one_cycle_snapshot\<close>: the pair of entries is the playlist text and the segment table
  that the \<open>try\<close> block computes from one body.\<close>

definition cycle_output ::
  "(pystr \<Rightarrow> pystr \<Rightarrow> pystr option) \<Rightarrow> pystr \<Rightarrow> pystr \<Rightarrow> pystr \<Rightarrow> pystr list \<Rightarrow> pystr list
     \<Rightarrow> bool" where
  "cycle_output urljoin name version source_url new_segs new_playlist_lines =
     (\<exists>text. rewrite urljoin name version source_url text = Some (new_segs, new_playlist_lines))"

definition one_cycle_snapshot ::
  "(pystr \<Rightarrow> pystr \<Rightarrow> pystr option) \<Rightarrow> pystr \<Rightarrow> pystr \<Rightarrow> pystr
     \<Rightarrow> pystr option \<times> pystr list option \<Rightarrow> bool" where
  "one_cycle_snapshot urljoin name version source_url entries =
     (\<exists>new_segs new_playlist_lines.
        cycle_output urljoin name version source_url new_segs new_playlist_lines
        \<and> entries = (Some (join_str [10] new_playlist_lines), Some new_segs))"

text \<open>
  The cycles of a run. A run of the interleaved system is followed together with the list
  of the cycles that have begun their assignments, the most recent first; a cycle is
  written as the pair \<open>(new_segs, new_playlist_lines)\<close> that it computed. \<open>note_cycle\<close>
  adds the cycle at the step that makes its first assignment and changes nothing at any
  other step.

  \<open>entries_after s0 key cycles\<close> is what the two entries of the channel are when the
  most recent of these cycles has made both assignments: its text and its table, or the
  entries of the starting state \<open>s0\<close> when there has been no cycle.
\<close>

type_synonym cycle_result = "pystr list \<times> pystr list"

fun note_cycle ::
  "worker_pc \<times> app_state \<Rightarrow> worker_pc \<times> app_state \<Rightarrow> cycle_result list \<Rightarrow> cycle_result list" where
  "note_cycle (Computed new_segs new_playlist_lines, s) (SegsStored ls, s') cycles =
     (new_segs, new_playlist_lines) # cycles"
| "note_cycle c c' cycles = cycles"

inductive reachable_with_cycles ::
  "(pystr \<Rightarrow> pystr \<Rightarrow> pystr option) \<Rightarrow> pystr \<Rightarrow> pystr \<Rightarrow> pystr
     \<Rightarrow> app_state \<Rightarrow> cycle_result list \<Rightarrow> worker_pc \<times> app_state \<Rightarrow> bool"
  for urljoin name version source_url s0 where
  start: "reachable_with_cycles urljoin name version source_url s0 [] (LoopTop, s0)"
| step:
    "reachable_with_cycles urljoin name version source_url s0 cycles c \<Longrightarrow>
     system_step urljoin name version source_url c c' \<Longrightarrow>
     reachable_with_cycles urljoin name version source_url s0 (note_cycle c c' cycles) c'"

fun entries_after ::
  "app_state \<Rightarrow> chan_key \<Rightarrow> cycle_result list \<Rightarrow> pystr option \<times> pystr list option" where
  "entries_after s0 key [] = observe s0 key"
| "entries_after s0 key ((new_segs, new_playlist_lines) # earlier) =
     (Some (join_str [10] new_playlist_lines), Some new_segs)"

subsection \<open>Example states\<close>

text \<open>A token \<open>tok\<close> bound to the channel \<open>(A, v1)\<close> that expires at the instant 100, and a
  state that holds it together with a playlist and a two-entry segment table of that
  channel.\<close>

abbreviation token_row_A_v1 :: token_row where
  "token_row_A_v1 \<equiv> \<lparr>expires = 100, channel_name = lit ''A'', channel_version = lit ''v1'',
     play_url = lit ''/A/v1/index.m3u8?token=tok''\<rparr>"

abbreviation state_A_v1 :: app_state where
  "state_A_v1 \<equiv> initial_state\<lparr>tokens := [lit ''tok'' \<mapsto> token_row_A_v1],
     latest_playlists := [(lit ''A'', lit ''v1'') \<mapsto> lit ''#EXTM3U''],
     latest_segments := [(lit ''A'', lit ''v1'') \<mapsto> [lit ''http://o.example/live/seg0.ts'', lit ''http://o.example/live/seg1.ts'']]\<rparr>"

section \<open>Frame lemmas\<close>

lemma validate_token_caches:
  "latest_playlists (snd (validate_token now token s)) = latest_playlists s"
  "latest_segments (snd (validate_token now token s)) = latest_segments s"
  by (auto simp: validate_token_def split: option.splits)

lemma cleanup_caches:
  "latest_playlists (cleanup_expired_tokens now s) = latest_playlists s"
  "latest_segments (cleanup_expired_tokens now s) = latest_segments s"
  by (simp_all add: cleanup_expired_tokens_def)

section \<open>Token validity\<close>

text \<open>
  Claim C3, as the code has it. \<open>validate_token\<close> returns the bound channel identity if
  and only if a row for the token exists and the instant of the call is not after the
  stored expiry (\<open>now \<le> expires\<close>: the expiry instant itself is still valid); then the
  store is unchanged. When the row exists and \<open>now\<close> is after its expiry, the result is
  \<open>None\<close> and the row has been deleted. When there is no row, the result is \<open>None\<close> and
  the store is unchanged.
\<close>

theorem validate_token_valid_until_expiry:
  "(fst (validate_token now token s) = Some ident \<longleftrightarrow>
      (\<exists>row. tokens s token = Some row \<and> now \<le> expires row
         \<and> ident = (channel_name row, channel_version row)))
   \<and> (\<forall>row. tokens s token = Some row \<and> now \<le> expires row \<longrightarrow>
         snd (validate_token now token s) = s)
   \<and> (\<forall>row. tokens s token = Some row \<and> expires row < now \<longrightarrow>
         validate_token now token s = (None, s\<lparr>tokens := (tokens s)(token := None)\<rparr>)
         \<and> tokens (snd (validate_token now token s)) token = None)
   \<and> (tokens s token = None \<longrightarrow> validate_token now token s = (None, s))"
  by (auto simp: validate_token_def split: option.splits)

text \<open>A token that expires at 100: valid at 50, deleted by a call at 101; an unknown
  token leaves the store as it is.\<close>

theorem validate_token_valid_until_expiry_witness:
  "fst (validate_token 50 (lit ''tok'')
      (initial_state\<lparr>tokens := [lit ''tok'' \<mapsto> \<lparr>expires = 100, channel_name = lit ''A'',
         channel_version = lit ''v1'', play_url = lit ''/A/v1/index.m3u8?token=tok''\<rparr>]\<rparr>))
     = Some (lit ''A'', lit ''v1'')
   \<and> fst (validate_token 101 (lit ''tok'')
      (initial_state\<lparr>tokens := [lit ''tok'' \<mapsto> \<lparr>expires = 100, channel_name = lit ''A'',
         channel_version = lit ''v1'', play_url = lit ''/A/v1/index.m3u8?token=tok''\<rparr>]\<rparr>))
     = None
   \<and> tokens (snd (validate_token 101 (lit ''tok'')
      (initial_state\<lparr>tokens := [lit ''tok'' \<mapsto> \<lparr>expires = 100, channel_name = lit ''A'',
         channel_version = lit ''v1'', play_url = lit ''/A/v1/index.m3u8?token=tok''\<rparr>]\<rparr>)))
       (lit ''tok'') = None
   \<and> validate_token 50 (lit ''tok'') initial_state = (None, initial_state)"
  using
    validate_token_valid_until_expiry [of 50 "lit ''tok''"
      "initial_state\<lparr>tokens := [lit ''tok'' \<mapsto> \<lparr>expires = 100, channel_name = lit ''A'',
         channel_version = lit ''v1'', play_url = lit ''/A/v1/index.m3u8?token=tok''\<rparr>]\<rparr>"
      "(lit ''A'', lit ''v1'')"]
    validate_token_valid_until_expiry [of 101 "lit ''tok''"
      "initial_state\<lparr>tokens := [lit ''tok'' \<mapsto> \<lparr>expires = 100, channel_name = lit ''A'',
         channel_version = lit ''v1'', play_url = lit ''/A/v1/index.m3u8?token=tok''\<rparr>]\<rparr>"]
    validate_token_valid_until_expiry [of 50 "lit ''tok''" initial_state]
  by (simp add: initial_state_def)

text \<open>At the expiry instant itself the strict reading \<open>now < expiry\<close> fails, and the token
  is still accepted.\<close>

theorem validate_token_at_expiry_counterexample:
  "fst (validate_token 100 (lit ''tok'')
      (initial_state\<lparr>tokens := [lit ''tok'' \<mapsto> \<lparr>expires = 100, channel_name = lit ''A'',
         channel_version = lit ''v1'', play_url = lit ''/A/v1/index.m3u8?token=tok''\<rparr>]\<rparr>))
     = Some (lit ''A'', lit ''v1'')
   \<and> \<not> ((100::real) < expires \<lparr>expires = 100, channel_name = lit ''A'',
         channel_version = lit ''v1'', play_url = lit ''/A/v1/index.m3u8?token=tok''\<rparr>)"
  by (simp add: validate_token_def)

section \<open>Playlist requests\<close>

text \<open>
  Claim C4. A token whose row is bound to a channel identity and is not expired at the
  instant of the request (\<open>now \<le> expires\<close>, which covers every \<open>now < expires\<close>), presented
  on a path \<open>(name, version)\<close> that differs from the bound identity, is answered 403: the
  response is \<open>Token mismatch\<close> for every token that can be presented (the empty string
  counts as no token and is answered 403 as well), it never carries playlist content,
  and the state is left as it was.
\<close>

theorem play_index_token_mismatch:
  assumes "tokens s token = Some row" and "now \<le> expires row"
    and "(channel_name row, channel_version row) \<noteq> (name, version)"
  shows "(token \<noteq> [] \<longrightarrow>
            play_index s now name version (Some token) = (Abort 403 (lit ''Token mismatch''), s))
         \<and> status_of (fst (play_index s now name version (Some token))) = 403
         \<and> (\<forall>body mimetype. fst (play_index s now name version (Some token)) \<noteq> Response body mimetype)"
  using assms by (auto simp: play_index_def validate_token_def)

text \<open>The token of \<open>(A, v1)\<close> against the paths \<open>(A, v2)\<close> and \<open>(B, v1)\<close>.\<close>

theorem play_index_token_mismatch_witness:
  "play_index state_A_v1 50 (lit ''A'') (lit ''v2'') (Some (lit ''tok''))
     = (Abort 403 (lit ''Token mismatch''), state_A_v1)
   \<and> play_index state_A_v1 50 (lit ''B'') (lit ''v1'') (Some (lit ''tok''))
     = (Abort 403 (lit ''Token mismatch''), state_A_v1)
   \<and> tokens state_A_v1 (lit ''tok'') = Some token_row_A_v1
   \<and> (50::real) \<le> expires token_row_A_v1"
  using
    play_index_token_mismatch [where s = state_A_v1 and token = "lit ''tok''"
      and row = token_row_A_v1 and now = 50 and name = "lit ''A''" and version = "lit ''v2''"]
    play_index_token_mismatch [where s = state_A_v1 and token = "lit ''tok''"
      and row = token_row_A_v1 and now = 50 and name = "lit ''B''" and version = "lit ''v1''"]
  by (simp add: lit_def)

text \<open>
  Claim C5. The order of the decisions of a playlist request: no token in the query, or
  an empty one, gives 403 \<open>Missing token\<close>; a token with no row or with an expired row
  gives 403 \<open>Invalid or expired token\<close>; a valid token bound to another identity gives
  403 \<open>Token mismatch\<close>; a valid token of this channel gives 503 \<open>Playlist not ready\<close>
  when the channel has no playlist entry or an empty one, and otherwise 200 with the
  cached text and the media type \<open>application/vnd.apple.mpegurl\<close>.
\<close>

theorem play_index_decisions:
  "(token_arg = None \<or> token_arg = Some [] \<longrightarrow>
      play_index s now name version token_arg = (Abort 403 (lit ''Missing token''), s))
   \<and> (token \<noteq> [] \<and> (tokens s token = None \<or> (\<exists>row. tokens s token = Some row \<and> expires row < now)) \<longrightarrow>
      fst (play_index s now name version (Some token)) = Abort 403 (lit ''Invalid or expired token''))
   \<and> (token \<noteq> [] \<and> tokens s token = Some row \<and> now \<le> expires row
        \<and> (channel_name row, channel_version row) \<noteq> (name, version) \<longrightarrow>
      fst (play_index s now name version (Some token)) = Abort 403 (lit ''Token mismatch''))
   \<and> (token \<noteq> [] \<and> tokens s token = Some row \<and> now \<le> expires row
        \<and> (channel_name row, channel_version row) = (name, version)
        \<and> (latest_playlists s (name, version) = None \<or> latest_playlists s (name, version) = Some []) \<longrightarrow>
      fst (play_index s now name version (Some token)) = Abort 503 (lit ''Playlist not ready''))
   \<and> (token \<noteq> [] \<and> tokens s token = Some row \<and> now \<le> expires row
        \<and> (channel_name row, channel_version row) = (name, version)
        \<and> latest_playlists s (name, version) = Some playlist \<and> playlist \<noteq> [] \<longrightarrow>
      play_index s now name version (Some token)
        = (Response playlist (lit ''application/vnd.apple.mpegurl''), s)
      \<and> status_of (fst (play_index s now name version (Some token))) = 200)"
  by (auto simp: play_index_def validate_token_def)

text \<open>One request for each of the outcomes, the expired token among them.\<close>

theorem play_index_decisions_witness:
  "play_index state_A_v1 50 (lit ''A'') (lit ''v1'') None
     = (Abort 403 (lit ''Missing token''), state_A_v1)
   \<and> fst (play_index state_A_v1 50 (lit ''A'') (lit ''v1'') (Some (lit ''bad'')))
     = Abort 403 (lit ''Invalid or expired token'')
   \<and> fst (play_index state_A_v1 101 (lit ''A'') (lit ''v1'') (Some (lit ''tok'')))
     = Abort 403 (lit ''Invalid or expired token'')
   \<and> fst (play_index state_A_v1 50 (lit ''A'') (lit ''v2'') (Some (lit ''tok'')))
     = Abort 403 (lit ''Token mismatch'')
   \<and> fst (play_index (state_A_v1\<lparr>latest_playlists := [(lit ''A'', lit ''v1'') \<mapsto> []]\<rparr>) 50
        (lit ''A'') (lit ''v1'') (Some (lit ''tok'')))
     = Abort 503 (lit ''Playlist not ready'')
   \<and> play_index state_A_v1 50 (lit ''A'') (lit ''v1'') (Some (lit ''tok''))
     = (Response (lit ''#EXTM3U'') (lit ''application/vnd.apple.mpegurl''), state_A_v1)"
  using
    play_index_decisions [where s = state_A_v1 and now = 50 and name = "lit ''A''"
      and version = "lit ''v1''" and token_arg = None and token = "lit ''bad''"
      and row = token_row_A_v1 and playlist = "lit ''#EXTM3U''"]
    play_index_decisions [where s = state_A_v1 and now = 101 and name = "lit ''A''"
      and version = "lit ''v1''" and token_arg = None and token = "lit ''tok''"
      and row = token_row_A_v1 and playlist = "lit ''#EXTM3U''"]
    play_index_decisions [where s = state_A_v1 and now = 50 and name = "lit ''A''"
      and version = "lit ''v2''" and token_arg = None and token = "lit ''tok''"
      and row = token_row_A_v1 and playlist = "lit ''#EXTM3U''"]
    play_index_decisions [where s = "state_A_v1\<lparr>latest_playlists := [(lit ''A'', lit ''v1'') \<mapsto> []]\<rparr>"
      and now = 50 and name = "lit ''A''"
      and version = "lit ''v1''" and token_arg = None and token = "lit ''tok''"
      and row = token_row_A_v1 and playlist = "lit ''#EXTM3U''"]
    play_index_decisions [where s = state_A_v1 and now = 50 and name = "lit ''A''"
      and version = "lit ''v1''" and token_arg = None and token = "lit ''tok''"
      and row = token_row_A_v1 and playlist = "lit ''#EXTM3U''"]
  by (simp add: lit_def)

section \<open>Segment requests\<close>

text \<open>
  Claim C6. With a segment table of length \<open>n\<close> for the channel, an index outside
  \<open>[0, n)\<close> is answered 404 \<open>Segment not found\<close> and nothing is fetched upstream; an index
  within the bounds fetches exactly the URL stored at that index of the table, and the
  response is determined by that fetch alone. The token store plays no part in the
  answer.
\<close>

theorem segment_index_lookup:
  "(latest_segments s (name, version) = Some segs \<and> (seg_id < 0 \<or> int (length segs) \<le> seg_id) \<longrightarrow>
      segment upstream s name version seg_id = (Abort 404 (lit ''Segment not found''), []))
   \<and> (latest_segments s (name, version) = Some segs \<and> 0 \<le> seg_id \<and> seg_id < int (length segs) \<longrightarrow>
      snd (segment upstream s name version seg_id) = [segs ! nat seg_id]
      \<and> fst (segment upstream s name version seg_id) =
          (case upstream (segs ! nat seg_id) of
             FetchFailed \<Rightarrow> Abort 502 (lit ''Upstream fetch failed'')
           | FetchOk content \<Rightarrow> Response content (lit ''video/MP2T'')))
   \<and> segment upstream (s\<lparr>tokens := tks\<rparr>) name version seg_id
       = segment upstream s name version seg_id"
  by (auto simp: segment_def split: fetch_result.splits)

text \<open>Index 5 against a table of two entries gives 404; indices 1 and 0 fetch the second
  and the first URL.\<close>

theorem segment_index_lookup_witness:
  "segment (\<lambda>url. FetchOk [71, 64]) state_A_v1 (lit ''A'') (lit ''v1'') 5
     = (Abort 404 (lit ''Segment not found''), [])
   \<and> segment (\<lambda>url. FetchOk [71, 64]) state_A_v1 (lit ''A'') (lit ''v1'') 1
     = (Response [71, 64] (lit ''video/MP2T''), [lit ''http://o.example/live/seg1.ts''])
   \<and> segment (\<lambda>url. FetchOk [71, 64]) (state_A_v1\<lparr>tokens := Map.empty\<rparr>) (lit ''A'') (lit ''v1'') 0
     = (Response [71, 64] (lit ''video/MP2T''), [lit ''http://o.example/live/seg0.ts''])"
  using
    segment_index_lookup [where s = state_A_v1 and name = "lit ''A''" and version = "lit ''v1''"
      and segs = "[lit ''http://o.example/live/seg0.ts'', lit ''http://o.example/live/seg1.ts'']"
      and seg_id = 5 and upstream = "\<lambda>url. FetchOk [71, 64]" and tks = Map.empty]
    segment_index_lookup [where s = state_A_v1 and name = "lit ''A''" and version = "lit ''v1''"
      and segs = "[lit ''http://o.example/live/seg0.ts'', lit ''http://o.example/live/seg1.ts'']"
      and seg_id = 1 and upstream = "\<lambda>url. FetchOk [71, 64]" and tks = Map.empty]
    segment_index_lookup [where s = state_A_v1 and name = "lit ''A''" and version = "lit ''v1''"
      and segs = "[lit ''http://o.example/live/seg0.ts'', lit ''http://o.example/live/seg1.ts'']"
      and seg_id = 0 and upstream = "\<lambda>url. FetchOk [71, 64]" and tks = Map.empty]
  by (simp add: prod_eq_iff)

text \<open>
  Claim C10. A channel with no entry in \<open>latest_segments\<close> and a channel whose entry is the
  empty table get the same answer at the segment route for every index: 404
  \<open>Segment not found\<close>, with no upstream fetch.
\<close>

theorem segment_absent_like_empty:
  assumes "latest_segments s1 (name, version) = None"
    and "latest_segments s2 (name, version) = Some []"
  shows "segment upstream s1 name version seg_id = (Abort 404 (lit ''Segment not found''), [])
     \<and> segment upstream s2 name version seg_id = (Abort 404 (lit ''Segment not found''), [])"
  using assms by (auto simp: segment_def)

text \<open>The state with no entry at all, and the state with an empty table.\<close>

theorem segment_absent_like_empty_witness:
  "segment (\<lambda>url. FetchOk [71, 64]) initial_state (lit ''A'') (lit ''v1'') 0
     = (Abort 404 (lit ''Segment not found''), [])
   \<and> segment (\<lambda>url. FetchOk [71, 64])
       (initial_state\<lparr>latest_segments := [(lit ''A'', lit ''v1'') \<mapsto> []]\<rparr>) (lit ''A'') (lit ''v1'') 0
     = (Abort 404 (lit ''Segment not found''), [])
   \<and> latest_segments initial_state (lit ''A'', lit ''v1'') = None"
  using
    segment_absent_like_empty [where ?s1.0 = initial_state
      and ?s2.0 = "initial_state\<lparr>latest_segments := [(lit ''A'', lit ''v1'') \<mapsto> []]\<rparr>"
      and name = "lit ''A''" and version = "lit ''v1''" and seg_id = 0
      and upstream = "\<lambda>url. FetchOk [71, 64]"]
  by (simp add: initial_state_def)

section \<open>Failed cycles\<close>

lemma rewrite_empty_body: "rewrite urljoin name version source_url [] = Some ([], [])"
  by (simp add: rewrite_def splitlines_def)

text \<open>
  Claim C9, as the code has it. The fetch step fails when \<open>requests.get\<close> raises or when
  the final response has a status code from 400 to 599, the codes for which
  \<open>raise_for_status\<close> raises. A cycle whose fetch step fails leaves both dictionaries
  exactly as they were, for every channel, and the loop goes on with the next cycle:
  only the sweep of the expired tokens has run. A final response with any other status
  code is not a failure of the fetch step: the cycle goes on with the text of the
  response.
\<close>

theorem failed_fetch_keeps_cache:
  "(reply = NoReply \<or> (reply = Reply status_code body \<and> 400 \<le> status_code \<and> status_code < 600) \<longrightarrow>
      fetch_step reply = FetchFailed
      \<and> latest_playlists (worker_cycle urljoin name version source_url (fetch_step reply) now s)
          = latest_playlists s
      \<and> latest_segments (worker_cycle urljoin name version source_url (fetch_step reply) now s)
          = latest_segments s
      \<and> update_worker urljoin name version source_url ((False, fetch_step reply, now) # rest) s
          = update_worker urljoin name version source_url rest (cleanup_expired_tokens now s))
   \<and> (reply = Reply status_code body \<and> (status_code < 400 \<or> 600 \<le> status_code) \<longrightarrow>
      fetch_step reply = FetchOk body)"
  by (auto simp: fetch_step_def raise_for_status_def worker_cycle_def cleanup_caches)

text \<open>A cycle with no reply, and cycles answered 404 and 503, on a channel that has a
  playlist and two segments.\<close>

theorem failed_fetch_keeps_cache_witness:
  "observe (worker_cycle (\<lambda>base ref. Some (base @ ref)) (lit ''A'') (lit ''v1'')
       (lit ''http://o.example/live/stream.m3u8'') (fetch_step NoReply) 50 state_A_v1)
       (lit ''A'', lit ''v1'')
     = (Some (lit ''#EXTM3U''),
        Some [lit ''http://o.example/live/seg0.ts'', lit ''http://o.example/live/seg1.ts''])
   \<and> observe (worker_cycle (\<lambda>base ref. Some (base @ ref)) (lit ''A'') (lit ''v1'')
       (lit ''http://o.example/live/stream.m3u8'') (fetch_step (Reply 404 (lit ''gone''))) 50
       state_A_v1) (lit ''A'', lit ''v1'')
     = (Some (lit ''#EXTM3U''),
        Some [lit ''http://o.example/live/seg0.ts'', lit ''http://o.example/live/seg1.ts''])
   \<and> observe (worker_cycle (\<lambda>base ref. Some (base @ ref)) (lit ''A'') (lit ''v1'')
       (lit ''http://o.example/live/stream.m3u8'') (fetch_step (Reply 503 [])) 50
       state_A_v1) (lit ''A'', lit ''v1'')
     = (Some (lit ''#EXTM3U''),
        Some [lit ''http://o.example/live/seg0.ts'', lit ''http://o.example/live/seg1.ts''])
   \<and> fetch_step (Reply 200 (lit ''seg0.ts'')) = FetchOk (lit ''seg0.ts'')"
  using
    failed_fetch_keeps_cache [where urljoin = "\<lambda>base ref. Some (base @ ref)" and name = "lit ''A''"
      and version = "lit ''v1''" and source_url = "lit ''http://o.example/live/stream.m3u8''"
      and now = 50 and s = state_A_v1 and rest = "[]" and reply = NoReply
      and status_code = 404 and body = "[]"]
    failed_fetch_keeps_cache [where urljoin = "\<lambda>base ref. Some (base @ ref)" and name = "lit ''A''"
      and version = "lit ''v1''" and source_url = "lit ''http://o.example/live/stream.m3u8''"
      and now = 50 and s = state_A_v1 and rest = "[]" and reply = "Reply 404 (lit ''gone'')"
      and status_code = 404 and body = "lit ''gone''"]
    failed_fetch_keeps_cache [where urljoin = "\<lambda>base ref. Some (base @ ref)" and name = "lit ''A''"
      and version = "lit ''v1''" and source_url = "lit ''http://o.example/live/stream.m3u8''"
      and now = 50 and s = state_A_v1 and rest = "[]" and reply = "Reply 503 []"
      and status_code = 503 and body = "[]"]
    failed_fetch_keeps_cache [where urljoin = "\<lambda>base ref. Some (base @ ref)" and name = "lit ''A''"
      and version = "lit ''v1''" and source_url = "lit ''http://o.example/live/stream.m3u8''"
      and now = 50 and s = state_A_v1 and rest = "[]" and reply = "Reply 200 (lit ''seg0.ts'')"
      and status_code = 200 and body = "lit ''seg0.ts''"]
  by (simp add: observe_def cleanup_caches fetch_step_def raise_for_status_def worker_cycle_def)

text \<open>A final response with the status 304, which is not a 2xx status, and an empty text:
  the fetch step does not fail, and the cycle replaces the playlist and the two segments
  of the channel by the empty text and the empty table.\<close>

theorem not_2xx_not_failed_counterexample:
  "\<not> (200 \<le> (304::nat) \<and> (304::nat) < 300)
   \<and> fetch_step (Reply 304 []) = FetchOk []
   \<and> observe state_A_v1 (lit ''A'', lit ''v1'')
     = (Some (lit ''#EXTM3U''),
        Some [lit ''http://o.example/live/seg0.ts'', lit ''http://o.example/live/seg1.ts''])
   \<and> observe (worker_cycle (\<lambda>base ref. Some (base @ ref)) (lit ''A'') (lit ''v1'')
       (lit ''http://o.example/live/stream.m3u8'') (fetch_step (Reply 304 [])) 50 state_A_v1)
       (lit ''A'', lit ''v1'')
     = (Some [], Some [])"
proof -
  have f: "fetch_step (Reply 304 []) = FetchOk []"
    by (simp add: fetch_step_def raise_for_status_def)
  have o: "observe state_A_v1 (lit ''A'', lit ''v1'')
     = (Some (lit ''#EXTM3U''),
        Some [lit ''http://o.example/live/seg0.ts'', lit ''http://o.example/live/seg1.ts''])"
    by (simp add: observe_def)
  have w: "observe (worker_cycle (\<lambda>base ref. Some (base @ ref)) (lit ''A'') (lit ''v1'')
       (lit ''http://o.example/live/stream.m3u8'') (FetchOk []) 50 state_A_v1)
       (lit ''A'', lit ''v1'')
     = (Some [], Some [])"
    by (simp add: worker_cycle_def rewrite_empty_body observe_def cleanup_caches
          store_playlist_def store_segments_def)
  show ?thesis using f o w by simp
qed

section \<open>Supervisor invariant\<close>

text \<open>The handle recorded for a channel is its one live worker: both operations keep
  this true.\<close>

lemma is_live_start:
  assumes inv: "\<And>k i. is_live s k i \<longleftrightarrow> updater_threads s k = Some i"
  shows "is_live (start_updater name version source_url s) k i
           \<longleftrightarrow> updater_threads (start_updater name version source_url s) k = Some i"
proof (cases "(name, version) \<in> dom (updater_threads s)")
  case True
  then show ?thesis by (simp add: start_updater_def inv)
next
  case False
  then have none: "updater_threads s (name, version) = None" by auto
  have bound: "\<And>k' j. updater_threads s k' = Some j \<Longrightarrow> j < length (spawned s)"
    using inv by (auto simp: is_live_def)
  show ?thesis
  proof (cases "i < length (spawned s)")
    case True
    have "is_live (start_updater name version source_url s) k i = is_live s k i"
      using True False by (simp add: start_updater_def is_live_def nth_append)
    moreover have "(updater_threads (start_updater name version source_url s) k = Some i)
        = (updater_threads s k = Some i)"
      using True False none by (auto simp: start_updater_def)
    ultimately show ?thesis using inv by simp
  next
    case notless: False
    show ?thesis
    proof (cases "i = length (spawned s)")
      case True
      then show ?thesis using False bound [of k i]
        by (auto simp: start_updater_def is_live_def nth_append)
    next
      case False
      then have "length (spawned s) < i" using notless by simp
      then show ?thesis using \<open>(name, version) \<notin> dom (updater_threads s)\<close> bound [of k i]
        by (auto simp: start_updater_def is_live_def)
    qed
  qed
qed

lemma is_live_stop:
  assumes inv: "\<And>k i. is_live s k i \<longleftrightarrow> updater_threads s k = Some i"
  shows "is_live (stop_updater name version s) k i
           \<longleftrightarrow> updater_threads (stop_updater name version s) k = Some i"
proof (cases "updater_threads s (name, version)")
  case None
  then show ?thesis by (simp add: stop_updater_def inv)
next
  case (Some h)
  then have live_h: "is_live s (name, version) h" using inv by simp
  show ?thesis
  proof (cases "i = h")
    case True
    have "\<not> is_live (stop_updater name version s) k h"
      using Some live_h by (simp add: stop_updater_def is_live_def)
    moreover have "updater_threads (stop_updater name version s) k \<noteq> Some h"
    proof
      assume a: "updater_threads (stop_updater name version s) k = Some h"
      then have "k \<noteq> (name, version)" and "updater_threads s k = Some h"
        using Some by (auto simp: stop_updater_def split: if_splits)
      then have "is_live s k h" using inv by simp
      with live_h \<open>k \<noteq> (name, version)\<close> show False by (auto simp: is_live_def)
    qed
    ultimately show ?thesis using True by simp
  next
    case False
    have "is_live (stop_updater name version s) k i = is_live s k i"
      using Some False by (auto simp: stop_updater_def is_live_def)
    moreover have "(updater_threads (stop_updater name version s) k = Some i)
        = (updater_threads s k = Some i)"
      using Some False by (auto simp: stop_updater_def)
    ultimately show ?thesis using inv by simp
  qed
qed

lemma is_live_initial: "is_live initial_state k i \<longleftrightarrow> updater_threads initial_state k = Some i"
  by (simp add: is_live_def initial_state_def)

lemma is_live_run_ops:
  "is_live (run_ops ops initial_state) k i \<longleftrightarrow> updater_threads (run_ops ops initial_state) k = Some i"
proof (induction ops arbitrary: k i rule: rev_induct)
  case Nil
  then show ?case by (simp add: run_ops_def is_live_initial)
next
  case (snoc op ops)
  show ?case
  proof (cases op)
    case (Start n v u)
    then show ?thesis using is_live_start [of "run_ops ops initial_state" n v u k i] snoc
      by (simp add: run_ops_def)
  next
    case (Stop n v)
    then show ?thesis using is_live_stop [of "run_ops ops initial_state" n v k i] snoc
      by (simp add: run_ops_def)
  qed
qed

lemma live_workers_le_one:
  assumes inv: "\<And>i. is_live s k i \<longleftrightarrow> updater_threads s k = Some i"
  shows "length (live_workers s k) \<le> 1"
proof -
  have d: "distinct (live_workers s k)" by (simp add: live_workers_def)
  have "set (live_workers s k) \<subseteq> {i. updater_threads s k = Some i}"
    using inv by (auto simp: live_workers_def)
  also have "\<dots> \<subseteq> (case updater_threads s k of None \<Rightarrow> {} | Some h \<Rightarrow> {h})"
    by (auto split: option.splits)
  finally have "card (set (live_workers s k)) \<le> card (case updater_threads s k of None \<Rightarrow> {} | Some h \<Rightarrow> {h})"
    by (intro card_mono) (auto split: option.splits)
  also have "\<dots> \<le> 1" by (auto split: option.splits)
  finally show ?thesis using distinct_card [OF d] by simp
qed

lemma live_workers_handle:
  assumes inv: "\<And>i. is_live s k i \<longleftrightarrow> updater_threads s k = Some i"
    and h: "updater_threads s k = Some h"
  shows "live_workers s k = [h]"
proof -
  have "is_live s k h" using inv h by simp
  then have "h \<in> set (live_workers s k)" by (simp add: live_workers_def is_live_def)
  then have "live_workers s k \<noteq> []" by auto
  moreover have "length (live_workers s k) \<le> 1" using live_workers_le_one [of s k] inv by blast
  ultimately obtain x where x: "live_workers s k = [x]"
    by (cases "live_workers s k") auto
  with \<open>h \<in> set (live_workers s k)\<close> show ?thesis by simp
qed

lemma live_workers_none:
  assumes inv: "\<And>i. is_live s k i \<longleftrightarrow> updater_threads s k = Some i"
    and h: "updater_threads s k = None"
  shows "live_workers s k = []"
  using inv h by (simp add: live_workers_def)

text \<open>
  Claim C8. In the state after any sequence of \<open>start_updater\<close> and \<open>stop_updater\<close> calls
  from the initial state, a thread of a channel is live (started, its stop event not set)
  if and only if it is the handle recorded for the channel, so a channel has at most one
  live worker. \<open>start_updater\<close> changes nothing when a handle exists, a second start
  changes nothing, and after a start the channel has exactly one live worker.
  \<open>stop_updater\<close> changes nothing when there is no handle; otherwise it removes the
  handle and sets the stop event of its thread, and no live worker is left. A stop
  followed by a start gives a new thread, different from the stopped one, with its own
  unset event, and it is the one live worker.
\<close>

theorem supervisor_at_most_one_worker:
  assumes s: "s = run_ops ops initial_state"
  shows "length (live_workers s (name, version)) \<le> 1
    \<and> (is_live s (name, version) i \<longleftrightarrow> updater_threads s (name, version) = Some i)
    \<and> ((name, version) \<in> dom (updater_threads s) \<longrightarrow> start_updater name version source_url s = s)
    \<and> start_updater name version source_url (start_updater name version source_url s)
        = start_updater name version source_url s
    \<and> length (live_workers (start_updater name version source_url s) (name, version)) = 1
    \<and> ((name, version) \<notin> dom (updater_threads s) \<longrightarrow> stop_updater name version s = s)
    \<and> updater_threads (stop_updater name version s) (name, version) = None
    \<and> live_workers (stop_updater name version s) (name, version) = []
    \<and> (updater_threads s (name, version) = Some h \<longrightarrow>
          stop_event (spawned (stop_updater name version s) ! h)
          \<and> live_workers (start_updater name version source_url (stop_updater name version s))
               (name, version) = [length (spawned s)]
          \<and> length (spawned s) \<noteq> h
          \<and> stop_event (spawned (start_updater name version source_url (stop_updater name version s)) ! h)
          \<and> \<not> stop_event (spawned (start_updater name version source_url (stop_updater name version s))
                 ! length (spawned s)))"
proof -
  let ?key = "(name, version)"
  let ?s1 = "start_updater name version source_url s"
  let ?s2 = "stop_updater name version s"
  let ?s3 = "start_updater name version source_url ?s2"
  have inv: "\<And>k i. is_live s k i \<longleftrightarrow> updater_threads s k = Some i"
    unfolding s by (rule is_live_run_ops)
  have inv1: "\<And>k i. is_live ?s1 k i \<longleftrightarrow> updater_threads ?s1 k = Some i"
    using is_live_start [of s] inv by blast
  have inv2: "\<And>k i. is_live ?s2 k i \<longleftrightarrow> updater_threads ?s2 k = Some i"
    using is_live_stop [of s] inv by blast
  have inv3: "\<And>k i. is_live ?s3 k i \<longleftrightarrow> updater_threads ?s3 k = Some i"
    using is_live_start [of ?s2] inv2 by blast
  have c1: "length (live_workers s ?key) \<le> 1"
    using live_workers_le_one [of s ?key] inv by blast
  have c2: "is_live s ?key i \<longleftrightarrow> updater_threads s ?key = Some i"
    using inv by blast
  have c3: "?key \<in> dom (updater_threads s) \<longrightarrow> ?s1 = s"
    by (simp add: start_updater_def)
  have c4: "start_updater name version source_url ?s1 = ?s1"
    by (simp add: start_updater_def Let_def)
  obtain h1 where h1: "updater_threads ?s1 ?key = Some h1"
    by (cases "?key \<in> dom (updater_threads s)") (auto simp: start_updater_def)
  have c5: "length (live_workers ?s1 ?key) = 1"
    using live_workers_handle [of ?s1 ?key h1] inv1 h1 by simp
  have c6: "?key \<notin> dom (updater_threads s) \<longrightarrow> ?s2 = s"
    by (auto simp: stop_updater_def Let_def domIff split: option.splits)
  have c7: "updater_threads ?s2 ?key = None"
    by (simp add: stop_updater_def Let_def split: option.splits)
  have c8: "live_workers ?s2 ?key = []"
    using live_workers_none [of ?s2 ?key] inv2 c7 by blast
  have c9: "stop_event (spawned ?s2 ! h)
          \<and> live_workers ?s3 ?key = [length (spawned s)]
          \<and> length (spawned s) \<noteq> h
          \<and> stop_event (spawned ?s3 ! h)
          \<and> \<not> stop_event (spawned ?s3 ! length (spawned s))"
    if some: "updater_threads s ?key = Some h"
  proof -
    have "is_live s ?key h" using inv some by simp
    then have hlt: "h < length (spawned s)" by (simp add: is_live_def)
    have len2: "length (spawned ?s2) = length (spawned s)"
      using some by (simp add: stop_updater_def)
    have a: "stop_event (spawned ?s2 ! h)"
      using some hlt by (simp add: stop_updater_def)
    have t3: "updater_threads ?s3 ?key = Some (length (spawned s))"
      using c7 len2 by (simp add: start_updater_def domIff)
    have b: "live_workers ?s3 ?key = [length (spawned s)]"
      using live_workers_handle [of ?s3 ?key "length (spawned s)"] inv3 t3 by simp
    have sp3: "spawned ?s3 = spawned ?s2 @
        [\<lparr>w_name = name, w_version = version, w_source_url = source_url, stop_event = False\<rparr>]"
      using c7 by (simp add: start_updater_def domIff)
    have d: "stop_event (spawned ?s3 ! h)"
      using a hlt len2 by (simp add: sp3 nth_append)
    have e: "\<not> stop_event (spawned ?s3 ! length (spawned s))"
      using len2 by (simp add: sp3 nth_append)
    show ?thesis using a b hlt d e by simp
  qed
  show ?thesis using c1 c2 c3 c4 c5 c6 c7 c8 c9 by blast
qed

text \<open>Two starts of \<open>(A, v1)\<close> leave the one worker 0; a stop leaves none; the next start
  makes worker 1 the only live one.\<close>

theorem supervisor_at_most_one_worker_witness:
  "live_workers
     (run_ops [Start (lit ''A'') (lit ''v1'') (lit ''http://o.example/live/stream.m3u8''),
               Start (lit ''A'') (lit ''v1'') (lit ''http://o.example/live/stream.m3u8'')]
        initial_state) (lit ''A'', lit ''v1'') = [0]
   \<and> live_workers
     (stop_updater (lit ''A'') (lit ''v1'')
       (run_ops [Start (lit ''A'') (lit ''v1'') (lit ''http://o.example/live/stream.m3u8''),
               Start (lit ''A'') (lit ''v1'') (lit ''http://o.example/live/stream.m3u8'')]
        initial_state)) (lit ''A'', lit ''v1'') = []
   \<and> live_workers
     (start_updater (lit ''A'') (lit ''v1'') (lit ''http://o.example/live/stream.m3u8'')
       (stop_updater (lit ''A'') (lit ''v1'')
         (run_ops [Start (lit ''A'') (lit ''v1'') (lit ''http://o.example/live/stream.m3u8''),
               Start (lit ''A'') (lit ''v1'') (lit ''http://o.example/live/stream.m3u8'')]
          initial_state))) (lit ''A'', lit ''v1'') = [1]"
  using supervisor_at_most_one_worker [OF refl,
      where ops = "[Start (lit ''A'') (lit ''v1'') (lit ''http://o.example/live/stream.m3u8''),
               Start (lit ''A'') (lit ''v1'') (lit ''http://o.example/live/stream.m3u8'')]"
      and name = "lit ''A''" and version = "lit ''v1''"
      and source_url = "lit ''http://o.example/live/stream.m3u8''" and i = 0 and h = 0]
  by (simp add: run_ops_def start_updater_def stop_updater_def initial_state_def
        live_workers_def is_live_def)

section \<open>The rewrite of a playlist\<close>

lemma numbered_Cons:
  "map (\<lambda>j. if is_segment_line ((l # ls) ! j)
            then seg_path name version (k + length (filter is_segment_line (take j (l # ls))))
            else (l # ls) ! j) [0..<Suc (length ls)]
   = (if is_segment_line l then seg_path name version k else l)
     # map (\<lambda>j. if is_segment_line (ls ! j)
            then seg_path name version
                   ((if is_segment_line l then Suc k else k)
                     + length (filter is_segment_line (take j ls)))
            else ls ! j) [0..<length ls]"
  by (simp add: map_upt_Suc del: upt_Suc)

lemma kept_lines_Nil: "kept_lines [] = []"
  by (simp add: kept_lines_def)

lemma kept_lines_Cons:
  "kept_lines (raw # raws) = (if strip raw = [] then kept_lines raws else strip raw # kept_lines raws)"
  by (simp add: kept_lines_def)

lemma rewrite_lines_result:
  assumes "rewrite_lines urljoin name version base_url raws segs0 out0 = Some (segs, out)"
  shows "out = out0 @ map (\<lambda>j. if is_segment_line (kept_lines raws ! j)
            then seg_path name version (length segs0
                   + length (filter is_segment_line (take j (kept_lines raws))))
            else kept_lines raws ! j)
           [0..<length (kept_lines raws)]
       \<and> map Some segs = map Some segs0
           @ map (urljoin base_url) (filter is_segment_line (kept_lines raws))"
  using assms
proof (induction raws arbitrary: segs0 out0)
  case Nil
  then show ?case by (simp add: kept_lines_Nil)
next
  case (Cons raw raws)
  let ?ls = "kept_lines raws"
  show ?case
  proof (cases "strip raw = []")
    case True
    then have k: "kept_lines (raw # raws) = ?ls" by (simp add: kept_lines_Cons)
    have "rewrite_lines urljoin name version base_url raws segs0 out0 = Some (segs, out)"
      using Cons.prems True by (simp add: Let_def)
    from Cons.IH [OF this] show ?thesis unfolding k .
  next
    case nonempty: False
    then have k: "kept_lines (raw # raws) = strip raw # ?ls" by (simp add: kept_lines_Cons)
    show ?thesis
    proof (cases "is_segment_line (strip raw)")
      case True
      then obtain full where full: "urljoin base_url (strip raw) = Some full"
        using Cons.prems nonempty by (cases "urljoin base_url (strip raw)") (simp_all add: Let_def)
      then have "rewrite_lines urljoin name version base_url raws (segs0 @ [full])
                   (out0 @ [seg_path name version (length segs0)]) = Some (segs, out)"
        using Cons.prems nonempty True by (simp add: Let_def)
      from Cons.IH [OF this] show ?thesis unfolding k
        using True full numbered_Cons [of "strip raw" ?ls name version "length segs0"]
        by (simp del: upt_Suc)
    next
      case False
      then have "rewrite_lines urljoin name version base_url raws segs0 (out0 @ [strip raw])
                   = Some (segs, out)"
        using Cons.prems nonempty by (simp add: Let_def)
      from Cons.IH [OF this] show ?thesis unfolding k
        using False numbered_Cons [of "strip raw" ?ls name version "length segs0"]
        by (simp del: upt_Suc)
    qed
  qed
qed

lemma rewrite_lines_succeeds:
  assumes "\<forall>l\<in>set (filter is_segment_line (kept_lines raws)).
             urljoin base_url l \<noteq> None"
  shows "\<exists>segs out. rewrite_lines urljoin name version base_url raws segs0 out0 = Some (segs, out)"
  using assms
proof (induction raws arbitrary: segs0 out0)
  case Nil
  then show ?case by simp
next
  case (Cons raw raws)
  then show ?case by (auto simp: Let_def kept_lines_Cons split: option.splits)
qed

lemma rewrite_result:
  assumes "rewrite urljoin name version source_url text = Some (segs, out)"
  shows "length out = length (stripped_lines text)"
    and "\<forall>j<length out. out ! j =
           (if is_segment_line (stripped_lines text ! j)
            then seg_path name version (length (filter is_segment_line (take j (stripped_lines text))))
            else stripped_lines text ! j)"
    and "map Some segs = map (urljoin (base_url_of source_url))
           (filter is_segment_line (stripped_lines text))"
    and "length segs = length (filter is_segment_line (stripped_lines text))"
proof -
  note r = rewrite_lines_result [OF assms [unfolded rewrite_def], folded stripped_lines_def]
  from r show len: "length out = length (stripped_lines text)" by simp
  from r show "\<forall>j<length out. out ! j =
           (if is_segment_line (stripped_lines text ! j)
            then seg_path name version (length (filter is_segment_line (take j (stripped_lines text))))
            else stripped_lines text ! j)"
    by simp
  from r show m: "map Some segs = map (urljoin (base_url_of source_url))
           (filter is_segment_line (stripped_lines text))" by simp
  from arg_cong [OF m, of length] show "length segs = length (filter is_segment_line (stripped_lines text))"
    by simp
qed

lemma worker_cycle_observe:
  "rewrite urljoin name version source_url text = Some (segs, out) \<Longrightarrow>
   observe (worker_cycle urljoin name version source_url (FetchOk text) now s) (name, version)
     = (Some (join_str [10] out), Some segs)"
  by (simp add: worker_cycle_def observe_def cleanup_caches store_playlist_def store_segments_def)

text \<open>The scenario of the channel \<open>(demo, v1)\<close> with the source
  \<open>http://o.example/live/stream.m3u8\<close>. For a base that ends in a slash and a reference
  that is a bare file name, \<open>urljoin\<close> is concatenation; the examples use that function.\<close>

lemma rewrite_demo_scenario:
  "rewrite (\<lambda>base ref. Some (base @ ref)) (lit ''demo'') (lit ''v1'')
       (lit ''http://o.example/live/stream.m3u8'')
       (lit ''#EXTM3U'' @ [10] @ lit ''#EXTINF:10,'' @ [10] @ lit ''seg0.ts'' @ [10]
          @ lit ''#EXTINF:10,'' @ [10] @ lit ''seg1.ts'')
     = Some ([lit ''http://o.example/live/seg0.ts'', lit ''http://o.example/live/seg1.ts''],
             [lit ''#EXTM3U'', lit ''#EXTINF:10,'', lit ''/seg/demo/v1/0'', lit ''#EXTINF:10,'',
              lit ''/seg/demo/v1/1''])"
  by (simp add: rewrite_def splitlines_def is_linebreak_def strip_def isspace_def
        is_segment_line_def endswith_def seg_path_def lit_def base_url_of_def rsplit_head_def Let_def)

lemma stripped_lines_demo_scenario:
  "stripped_lines (lit ''#EXTM3U'' @ [10] @ lit ''#EXTINF:10,'' @ [10] @ lit ''seg0.ts'' @ [10]
          @ lit ''#EXTINF:10,'' @ [10] @ lit ''seg1.ts'')
   = [lit ''#EXTM3U'', lit ''#EXTINF:10,'', lit ''seg0.ts'', lit ''#EXTINF:10,'', lit ''seg1.ts'']"
  by (simp add: stripped_lines_def kept_lines_def splitlines_def is_linebreak_def strip_def isspace_def lit_def)

text \<open>
  Claim C1, as the code has it. Every line of the fetched body is first stripped of its
  leading and trailing whitespace, and the lines that are empty then are dropped. When
  \<open>urljoin\<close> raises on none of the remaining segment lines, the cycle produces one output
  line for each remaining line, in the same order: a line that is not a segment line is
  emitted as stripped, and a segment line (it ends in \<open>.ts\<close> or \<open>.aac\<close>, or contains
  \<open>.ts?\<close>) is replaced by \<open>/seg/name/version/i\<close>, where \<open>i\<close> counts the segment lines before
  it. The segment table holds, at index \<open>i\<close>, the \<open>urljoin\<close> of the directory of the source
  URL and the \<open>i\<close>-th segment line. The cycle installs the output lines joined by newlines,
  and the table.
\<close>

theorem rewrite_stripped_lines:
  assumes "\<forall>l\<in>set (filter is_segment_line (stripped_lines text)).
             urljoin (base_url_of source_url) l \<noteq> None"
  shows "\<exists>new_segs out.
           rewrite urljoin name version source_url text = Some (new_segs, out)
         \<and> length out = length (stripped_lines text)
         \<and> (\<forall>j<length out. out ! j =
              (if is_segment_line (stripped_lines text ! j)
               then seg_path name version
                      (length (filter is_segment_line (take j (stripped_lines text))))
               else stripped_lines text ! j))
         \<and> map Some new_segs
             = map (urljoin (base_url_of source_url)) (filter is_segment_line (stripped_lines text))
         \<and> observe (worker_cycle urljoin name version source_url (FetchOk text) now s) (name, version)
             = (Some (join_str [10] out), Some new_segs)"
proof -
  obtain segs out where r: "rewrite urljoin name version source_url text = Some (segs, out)"
    using rewrite_lines_succeeds [of "splitlines text" urljoin "base_url_of source_url" name version "[]" "[]"]
      assms by (auto simp: rewrite_def stripped_lines_def)
  show ?thesis
    using r rewrite_result(1-3) [OF r] worker_cycle_observe [OF r] by blast
qed

text \<open>The scenario of \<open>(demo, v1)\<close>: the rewritten lines, the segment table, and what the
  cycle installs.\<close>

theorem rewrite_stripped_lines_witness:
  "rewrite (\<lambda>base ref. Some (base @ ref)) (lit ''demo'') (lit ''v1'')
       (lit ''http://o.example/live/stream.m3u8'')
       (lit ''#EXTM3U'' @ [10] @ lit ''#EXTINF:10,'' @ [10] @ lit ''seg0.ts'' @ [10]
          @ lit ''#EXTINF:10,'' @ [10] @ lit ''seg1.ts'')
     = Some ([lit ''http://o.example/live/seg0.ts'', lit ''http://o.example/live/seg1.ts''],
             [lit ''#EXTM3U'', lit ''#EXTINF:10,'', lit ''/seg/demo/v1/0'', lit ''#EXTINF:10,'',
              lit ''/seg/demo/v1/1''])
   \<and> observe (worker_cycle (\<lambda>base ref. Some (base @ ref)) (lit ''demo'') (lit ''v1'')
       (lit ''http://o.example/live/stream.m3u8'')
       (FetchOk (lit ''#EXTM3U'' @ [10] @ lit ''#EXTINF:10,'' @ [10] @ lit ''seg0.ts'' @ [10]
          @ lit ''#EXTINF:10,'' @ [10] @ lit ''seg1.ts'')) 0 initial_state) (lit ''demo'', lit ''v1'')
     = (Some (lit ''#EXTM3U'' @ [10] @ lit ''#EXTINF:10,'' @ [10] @ lit ''/seg/demo/v1/0'' @ [10]
          @ lit ''#EXTINF:10,'' @ [10] @ lit ''/seg/demo/v1/1''),
        Some [lit ''http://o.example/live/seg0.ts'', lit ''http://o.example/live/seg1.ts''])"
proof -
  have h: "\<forall>l\<in>set (filter is_segment_line (stripped_lines
        (lit ''#EXTM3U'' @ [10] @ lit ''#EXTINF:10,'' @ [10] @ lit ''seg0.ts'' @ [10]
          @ lit ''#EXTINF:10,'' @ [10] @ lit ''seg1.ts''))).
      (\<lambda>base ref. Some (base @ ref)) (base_url_of (lit ''http://o.example/live/stream.m3u8'')) l \<noteq> None"
    by simp
  show ?thesis
    using rewrite_stripped_lines [where urljoin = "\<lambda>base ref. Some (base @ ref)"
        and name = "lit ''demo''" and version = "lit ''v1''"
        and source_url = "lit ''http://o.example/live/stream.m3u8''"
        and ?text = "lit ''#EXTM3U'' @ [10] @ lit ''#EXTINF:10,'' @ [10] @ lit ''seg0.ts'' @ [10]
          @ lit ''#EXTINF:10,'' @ [10] @ lit ''seg1.ts''"
        and now = 0 and s = initial_state, OF h]
      rewrite_demo_scenario
    by auto
qed

text \<open>A pass-through line with a leading space is not emitted verbatim: the body
  \<open>" #EXTM3U"\<close> is one line, not blank and not a segment line, and the playlist installed
  is \<open>"#EXTM3U"\<close>.\<close>

theorem rewrite_not_verbatim_counterexample:
  "splitlines (lit '' #EXTM3U'') = [lit '' #EXTM3U'']
   \<and> \<not> is_segment_line (lit '' #EXTM3U'')
   \<and> rewrite (\<lambda>base ref. Some (base @ ref)) (lit ''demo'') (lit ''v1'')
       (lit ''http://o.example/live/stream.m3u8'') (lit '' #EXTM3U'')
     = Some ([], [lit ''#EXTM3U''])
   \<and> latest_playlists (worker_cycle (\<lambda>base ref. Some (base @ ref)) (lit ''demo'') (lit ''v1'')
       (lit ''http://o.example/live/stream.m3u8'') (FetchOk (lit '' #EXTM3U'')) 0 initial_state)
       (lit ''demo'', lit ''v1'') = Some (lit ''#EXTM3U'')
   \<and> lit ''#EXTM3U'' \<noteq> lit '' #EXTM3U''"
proof -
  have r: "rewrite (\<lambda>base ref. Some (base @ ref)) (lit ''demo'') (lit ''v1'')
       (lit ''http://o.example/live/stream.m3u8'') (lit '' #EXTM3U'')
     = Some ([], [lit ''#EXTM3U''])"
    by (simp add: rewrite_def splitlines_def is_linebreak_def strip_def isspace_def
        is_segment_line_def endswith_def seg_path_def lit_def base_url_of_def rsplit_head_def Let_def)
  have a: "splitlines (lit '' #EXTM3U'') = [lit '' #EXTM3U''] \<and> \<not> is_segment_line (lit '' #EXTM3U'')
     \<and> lit ''#EXTM3U'' \<noteq> lit '' #EXTM3U''"
    by (simp add: splitlines_def is_linebreak_def is_segment_line_def endswith_def lit_def)
  have w: "latest_playlists (worker_cycle (\<lambda>base ref. Some (base @ ref)) (lit ''demo'') (lit ''v1'')
       (lit ''http://o.example/live/stream.m3u8'') (FetchOk (lit '' #EXTM3U'')) 0 initial_state)
       (lit ''demo'', lit ''v1'') = Some (lit ''#EXTM3U'')"
    using worker_cycle_observe [OF r, of 0 initial_state] by (simp add: observe_def)
  show ?thesis using r a w by blast
qed

section \<open>The same content twice\<close>

text \<open>
  Claim C7. The two lists of a cycle are a function of the body, the name, the version
  and the source URL: a second cycle that fetches the same body leaves both
  dictionaries as the first cycle left them, and the entries that a successful cycle
  installs for the channel do not depend on the state before the cycle or on the
  instant.
\<close>

theorem same_content_same_snapshot:
  "latest_playlists (worker_cycle urljoin name version source_url (FetchOk text) now2
       (worker_cycle urljoin name version source_url (FetchOk text) now1 s))
     = latest_playlists (worker_cycle urljoin name version source_url (FetchOk text) now1 s)
   \<and> latest_segments (worker_cycle urljoin name version source_url (FetchOk text) now2
       (worker_cycle urljoin name version source_url (FetchOk text) now1 s))
     = latest_segments (worker_cycle urljoin name version source_url (FetchOk text) now1 s)
   \<and> (rewrite urljoin name version source_url text \<noteq> None \<longrightarrow>
        observe (worker_cycle urljoin name version source_url (FetchOk text) now1 s1) (name, version)
      = observe (worker_cycle urljoin name version source_url (FetchOk text) now2 s2) (name, version))"
  by (auto simp: worker_cycle_def observe_def cleanup_caches store_playlist_def store_segments_def
        split: option.splits)

text \<open>The scenario body on two successive cycles.\<close>

theorem same_content_same_snapshot_witness:
  "observe (worker_cycle (\<lambda>base ref. Some (base @ ref)) (lit ''demo'') (lit ''v1'')
       (lit ''http://o.example/live/stream.m3u8'')
       (FetchOk (lit ''#EXTM3U'' @ [10] @ lit ''#EXTINF:10,'' @ [10] @ lit ''seg0.ts'' @ [10]
          @ lit ''#EXTINF:10,'' @ [10] @ lit ''seg1.ts'')) 3 initial_state) (lit ''demo'', lit ''v1'')
   = observe (worker_cycle (\<lambda>base ref. Some (base @ ref)) (lit ''demo'') (lit ''v1'')
       (lit ''http://o.example/live/stream.m3u8'')
       (FetchOk (lit ''#EXTM3U'' @ [10] @ lit ''#EXTINF:10,'' @ [10] @ lit ''seg0.ts'' @ [10]
          @ lit ''#EXTINF:10,'' @ [10] @ lit ''seg1.ts'')) 6
       (worker_cycle (\<lambda>base ref. Some (base @ ref)) (lit ''demo'') (lit ''v1'')
         (lit ''http://o.example/live/stream.m3u8'')
         (FetchOk (lit ''#EXTM3U'' @ [10] @ lit ''#EXTINF:10,'' @ [10] @ lit ''seg0.ts'' @ [10]
            @ lit ''#EXTINF:10,'' @ [10] @ lit ''seg1.ts'')) 3 initial_state)) (lit ''demo'', lit ''v1'')
   \<and> rewrite (\<lambda>base ref. Some (base @ ref)) (lit ''demo'') (lit ''v1'')
       (lit ''http://o.example/live/stream.m3u8'')
       (lit ''#EXTM3U'' @ [10] @ lit ''#EXTINF:10,'' @ [10] @ lit ''seg0.ts'' @ [10]
          @ lit ''#EXTINF:10,'' @ [10] @ lit ''seg1.ts'')
     = Some ([lit ''http://o.example/live/seg0.ts'', lit ''http://o.example/live/seg1.ts''],
             [lit ''#EXTM3U'', lit ''#EXTINF:10,'', lit ''/seg/demo/v1/0'', lit ''#EXTINF:10,'',
              lit ''/seg/demo/v1/1''])"
  using
    same_content_same_snapshot [where urljoin = "\<lambda>base ref. Some (base @ ref)"
      and name = "lit ''demo''" and version = "lit ''v1''"
      and source_url = "lit ''http://o.example/live/stream.m3u8''"
      and ?text = "lit ''#EXTM3U'' @ [10] @ lit ''#EXTINF:10,'' @ [10] @ lit ''seg0.ts'' @ [10]
          @ lit ''#EXTINF:10,'' @ [10] @ lit ''seg1.ts''"
      and ?now1.0 = 3 and ?now2.0 = 6 and ?s1.0 = initial_state and s = initial_state
      and ?s2.0 = "worker_cycle (\<lambda>base ref. Some (base @ ref)) (lit ''demo'') (lit ''v1'')
         (lit ''http://o.example/live/stream.m3u8'')
         (FetchOk (lit ''#EXTM3U'' @ [10] @ lit ''#EXTINF:10,'' @ [10] @ lit ''seg0.ts'' @ [10]
            @ lit ''#EXTINF:10,'' @ [10] @ lit ''seg1.ts'')) 3 initial_state"]
    rewrite_demo_scenario
  by simp

section \<open>The two assignments of a cycle\<close>

text \<open>The gateway and the sweep leave both dictionaries alone.\<close>

lemma play_index_caches:
  "latest_playlists (snd (play_index s now name version token_arg)) = latest_playlists s"
  "latest_segments (snd (play_index s now name version token_arg)) = latest_segments s"
  by (auto simp: play_index_def validate_token_def Let_def split: option.splits)

lemma observe_frames:
  "observe (cleanup_expired_tokens now s) key = observe s key"
  "observe (snd (play_index s now name version token_arg)) key = observe s key"
  by (simp_all add: observe_def cleanup_caches play_index_caches)

lemma note_cycle_same_pc: "note_cycle (pc, s) (pc, s') cycles = cycles"
  by (cases pc) simp_all

text \<open>The runs that carry their cycles reach the same configurations as the plain
  relation.\<close>

lemma with_cycles_reachable:
  "reachable_with_cycles urljoin name version source_url s0 cycles c \<Longrightarrow>
   reachable urljoin name version source_url s0 c"
  by (induction rule: reachable_with_cycles.induct) (auto intro: reachable.intros)

lemma reachable_has_cycles:
  "reachable urljoin name version source_url s0 c \<Longrightarrow>
   \<exists>cycles. reachable_with_cycles urljoin name version source_url s0 cycles c"
  by (induction rule: reachable.induct) (blast intro: reachable_with_cycles.intros)+

text \<open>The invariant of the interleaved system, by induction on the steps taken.\<close>

lemma cycles_invariant:
  assumes "reachable_with_cycles urljoin name version source_url s0 cycles c"
  shows "(\<forall>p\<in>set cycles. cycle_output urljoin name version source_url (fst p) (snd p))
     \<and> (case fst c of
           SegsStored new_playlist_lines \<Rightarrow>
             (\<exists>new_segs earlier. cycles = (new_segs, new_playlist_lines) # earlier
                \<and> latest_segments (snd c) (name, version) = Some new_segs
                \<and> latest_playlists (snd c) (name, version)
                    = fst (entries_after s0 (name, version) earlier))
         | Computed new_segs new_playlist_lines \<Rightarrow>
             observe (snd c) (name, version) = entries_after s0 (name, version) cycles
             \<and> cycle_output urljoin name version source_url new_segs new_playlist_lines
         | _ \<Rightarrow> observe (snd c) (name, version) = entries_after s0 (name, version) cycles)"
  using assms
proof (induction rule: reachable_with_cycles.induct)
  case start
  show ?case by simp
next
  case (step cycles c c')
  from step.hyps(2) show ?case
  proof (cases rule: system_step.cases)
    case worker
    from this show ?thesis
    proof (cases rule: worker_step.cases)
      case (fetch_raised s)
      with step.IH show ?thesis by simp
    next
      case (rewrite_raised body s)
      with step.IH show ?thesis by simp
    next
      case (rewritten body new_segs new_playlist_lines s)
      with step.IH show ?thesis by (auto simp: cycle_output_def)
    next
      case (segments_assigned new_segs new_playlist_lines s)
      with step.IH have
        o: "observe s (name, version) = entries_after s0 (name, version) cycles"
        and co: "cycle_output urljoin name version source_url new_segs new_playlist_lines"
        and every: "\<forall>p\<in>set cycles. cycle_output urljoin name version source_url (fst p) (snd p)"
        by simp_all
      have "latest_playlists s (name, version) = fst (entries_after s0 (name, version) cycles)"
        using o [symmetric] by (simp add: observe_def)
      then show ?thesis
        using segments_assigned co every by (simp add: store_segments_def)
    next
      case (playlist_assigned new_playlist_lines s)
      with step.IH show ?thesis
        by (auto simp: store_playlist_def observe_def)
    next
      case (swept s now)
      with step.IH show ?thesis by (simp add: observe_frames)
    qed
  next
    case (playlist_request pc s now req_name req_version token_arg)
    with step.IH show ?thesis
      by (cases pc) (simp_all add: note_cycle_same_pc observe_frames play_index_caches)
  next
    case (segment_request pc s)
    with step.IH show ?thesis
      by (cases pc) (simp_all add: note_cycle_same_pc)
  qed
qed

text \<open>A cycle run without interruption is a path of the statement-level worker from the
  loop test back to the loop test.\<close>

lemma reach_worker_step:
  "reachable urljoin name version source_url s0 c \<Longrightarrow>
   worker_step urljoin name version source_url c c' \<Longrightarrow>
   reachable urljoin name version source_url s0 c'"
  by (rule reachable.step [OF _ system_step.worker])

lemma worker_cycle_reachable:
  assumes "reachable urljoin name version source_url s0 (LoopTop, s)"
  shows "reachable urljoin name version source_url s0
           (LoopTop, worker_cycle urljoin name version source_url fetched now s)"
proof (cases fetched)
  case FetchFailed
  have "reachable urljoin name version source_url s0 (LoopTop, cleanup_expired_tokens now s)"
    by (rule reach_worker_step [OF reach_worker_step [OF assms worker_step.fetch_raised]
          worker_step.swept])
  then show ?thesis using FetchFailed by (simp add: worker_cycle_def)
next
  case (FetchOk body)
  show ?thesis
  proof (cases "rewrite urljoin name version source_url body")
    case None
    have "reachable urljoin name version source_url s0 (LoopTop, cleanup_expired_tokens now s)"
      by (rule reach_worker_step [OF reach_worker_step [OF assms worker_step.rewrite_raised [OF None]]
            worker_step.swept])
    then show ?thesis using FetchOk None by (simp add: worker_cycle_def)
  next
    case (Some p)
    obtain new_segs new_playlist_lines where p: "p = (new_segs, new_playlist_lines)"
      by (cases p)
    note r = Some [unfolded p]
    note a = reach_worker_step [OF assms worker_step.rewritten [OF r]]
    note b = reach_worker_step [OF a worker_step.segments_assigned]
    note c = reach_worker_step [OF b worker_step.playlist_assigned]
    note d = reach_worker_step [OF c worker_step.swept [where now = now]]
    then show ?thesis using FetchOk r by (simp add: worker_cycle_def)
  qed
qed

text \<open>The same path with its cycles: up to the point between the two assignments, and
  through the whole cycle.\<close>

lemma cycles_worker_step:
  "reachable_with_cycles urljoin name version source_url s0 cycles c \<Longrightarrow>
   worker_step urljoin name version source_url c c' \<Longrightarrow>
   note_cycle c c' cycles = cycles' \<Longrightarrow>
   reachable_with_cycles urljoin name version source_url s0 cycles' c'"
  using reachable_with_cycles.step [OF _ system_step.worker] by blast

lemma cycle_to_first_assignment:
  assumes "reachable_with_cycles urljoin name version source_url s0 cycles (LoopTop, s)"
    and "rewrite urljoin name version source_url body = Some (new_segs, new_playlist_lines)"
  shows "reachable_with_cycles urljoin name version source_url s0
           ((new_segs, new_playlist_lines) # cycles)
           (SegsStored new_playlist_lines, store_segments name version new_segs s)"
proof -
  have a: "reachable_with_cycles urljoin name version source_url s0 cycles
             (Computed new_segs new_playlist_lines, s)"
    by (rule cycles_worker_step [OF assms(1) worker_step.rewritten [OF assms(2)]]) simp
  show ?thesis
    by (rule cycles_worker_step [OF a worker_step.segments_assigned]) simp
qed

lemma cycle_to_loop_test:
  assumes "reachable_with_cycles urljoin name version source_url s0 cycles (LoopTop, s)"
    and "rewrite urljoin name version source_url body = Some (new_segs, new_playlist_lines)"
  shows "reachable_with_cycles urljoin name version source_url s0
           ((new_segs, new_playlist_lines) # cycles)
           (LoopTop, cleanup_expired_tokens now
              (store_playlist name version new_playlist_lines
                (store_segments name version new_segs s)))"
proof -
  note a = cycle_to_first_assignment [OF assms]
  have b: "reachable_with_cycles urljoin name version source_url s0
             ((new_segs, new_playlist_lines) # cycles)
             (AfterTry, store_playlist name version new_playlist_lines
                (store_segments name version new_segs s))"
    by (rule cycles_worker_step [OF a worker_step.playlist_assigned]) simp
  show ?thesis
    by (rule cycles_worker_step [OF b worker_step.swept]) simp
qed

text \<open>Two cycles of \<open>(demo, v1)\<close>: the first fetches one segment line, the second two. The
  worker is followed through the first cycle, and through the second up to the point
  between its two assignments.\<close>

lemma cycle_output_lengths:
  assumes "cycle_output urljoin name version source_url new_segs new_playlist_lines"
  shows "length new_segs \<le> length new_playlist_lines"
proof -
  from assms obtain body where
    r: "rewrite urljoin name version source_url body = Some (new_segs, new_playlist_lines)"
    by (auto simp: cycle_output_def)
  show ?thesis using rewrite_result(1) [OF r] rewrite_result(4) [OF r] by simp
qed

lemma join_str_has_separator:
  "2 \<le> length xs \<Longrightarrow> set sep \<subseteq> set (join_str sep xs)"
proof (cases xs)
  case Nil
  assume "2 \<le> length xs"
  with Nil show ?thesis by simp
next
  case (Cons a ys)
  assume "2 \<le> length xs"
  with Cons obtain b zs where "ys = b # zs" by (cases ys) auto
  with Cons show ?thesis by auto
qed

lemma rewrite_one_segment:
  "rewrite (\<lambda>base ref. Some (base @ ref)) (lit ''demo'') (lit ''v1'')
       (lit ''http://o.example/live/stream.m3u8'') (lit ''seg0.ts'')
     = Some ([lit ''http://o.example/live/seg0.ts''], [lit ''/seg/demo/v1/0''])"
  by (simp add: rewrite_def splitlines_def is_linebreak_def strip_def isspace_def
        is_segment_line_def endswith_def seg_path_def lit_def base_url_of_def rsplit_head_def Let_def)

lemma rewrite_two_segments:
  "rewrite (\<lambda>base ref. Some (base @ ref)) (lit ''demo'') (lit ''v1'')
       (lit ''http://o.example/live/stream.m3u8'') (lit ''seg1.ts'' @ [10] @ lit ''seg2.ts'')
     = Some ([lit ''http://o.example/live/seg1.ts'', lit ''http://o.example/live/seg2.ts''],
             [lit ''/seg/demo/v1/0'', lit ''/seg/demo/v1/1''])"
  by (simp add: rewrite_def splitlines_def is_linebreak_def strip_def isspace_def
        is_segment_line_def endswith_def seg_path_def lit_def base_url_of_def rsplit_head_def Let_def)

lemma cycles_after_first_cycle:
  "reachable_with_cycles (\<lambda>base ref. Some (base @ ref)) (lit ''demo'') (lit ''v1'')
     (lit ''http://o.example/live/stream.m3u8'') initial_state
     [([lit ''http://o.example/live/seg0.ts''], [lit ''/seg/demo/v1/0''])]
     (LoopTop,
      cleanup_expired_tokens 0
        (store_playlist (lit ''demo'') (lit ''v1'') [lit ''/seg/demo/v1/0'']
          (store_segments (lit ''demo'') (lit ''v1'') [lit ''http://o.example/live/seg0.ts'']
            initial_state)))"
  by (rule cycle_to_loop_test [OF reachable_with_cycles.start rewrite_one_segment])

lemma cycles_between_assignments:
  "reachable_with_cycles (\<lambda>base ref. Some (base @ ref)) (lit ''demo'') (lit ''v1'')
     (lit ''http://o.example/live/stream.m3u8'') initial_state
     [([lit ''http://o.example/live/seg1.ts'', lit ''http://o.example/live/seg2.ts''],
       [lit ''/seg/demo/v1/0'', lit ''/seg/demo/v1/1'']),
      ([lit ''http://o.example/live/seg0.ts''], [lit ''/seg/demo/v1/0''])]
     (SegsStored [lit ''/seg/demo/v1/0'', lit ''/seg/demo/v1/1''],
      store_segments (lit ''demo'') (lit ''v1'')
        [lit ''http://o.example/live/seg1.ts'', lit ''http://o.example/live/seg2.ts'']
        (cleanup_expired_tokens 0
          (store_playlist (lit ''demo'') (lit ''v1'') [lit ''/seg/demo/v1/0'']
            (store_segments (lit ''demo'') (lit ''v1'') [lit ''http://o.example/live/seg0.ts'']
              initial_state))))"
  by (rule cycle_to_first_assignment [OF cycles_after_first_cycle rewrite_two_segments])

lemma not_one_cycle_snapshot:
  assumes no_newline: "10 \<notin> set playlist"
  shows "\<not> one_cycle_snapshot urljoin name version source_url (Some playlist, Some [u1, u2])"
proof
  assume "one_cycle_snapshot urljoin name version source_url (Some playlist, Some [u1, u2])"
  then obtain new_segs new_playlist_lines where
    c: "cycle_output urljoin name version source_url new_segs new_playlist_lines"
    and p: "playlist = join_str [10] new_playlist_lines" and s: "new_segs = [u1, u2]"
    by (auto simp: one_cycle_snapshot_def)
  from cycle_output_lengths [OF c] s have "2 \<le> length new_playlist_lines" by simp
  from join_str_has_separator [OF this, of "[10]"] p no_newline show False by simp
qed

text \<open>
  Claim C2, as the code has it. A completed cycle installs its result by two
  assignments, first the segment table in \<open>latest_segments\<close>, then the playlist text in
  \<open>latest_playlists\<close>. Take any state reached by interleaving the steps of the channel's
  worker with gateway requests, and the cycles of that run that have begun their
  assignments. Each such cycle computed its two lists from a body. When the worker is
  not between the two assignments, the two entries of the channel are the text and the
  table of the most recent of these cycles, or the entries of the starting state when
  there has been no cycle. When the worker is between the two assignments, the table is
  the table of the current cycle and the text is the previous text: the text of the cycle
  before, or the starting text when there is none.
\<close>

theorem snapshot_in_two_assignments:
  assumes "reachable_with_cycles urljoin name version source_url s0 cycles (pc, s)"
  shows "reachable urljoin name version source_url s0 (pc, s)
     \<and> (\<forall>(new_segs, new_playlist_lines)\<in>set cycles.
          cycle_output urljoin name version source_url new_segs new_playlist_lines)
     \<and> (case pc of
           SegsStored new_playlist_lines \<Rightarrow>
             (\<exists>new_segs earlier. cycles = (new_segs, new_playlist_lines) # earlier
                \<and> latest_segments s (name, version) = Some new_segs
                \<and> latest_playlists s (name, version)
                    = fst (entries_after s0 (name, version) earlier))
         | _ \<Rightarrow> observe s (name, version) = entries_after s0 (name, version) cycles)"
proof -
  note inv = cycles_invariant [OF assms]
  have a: "reachable urljoin name version source_url s0 (pc, s)"
    by (rule with_cycles_reachable [OF assms])
  have b: "\<forall>(new_segs, new_playlist_lines)\<in>set cycles.
          cycle_output urljoin name version source_url new_segs new_playlist_lines"
    using inv by auto
  have c: "case pc of
           SegsStored new_playlist_lines \<Rightarrow>
             (\<exists>new_segs earlier. cycles = (new_segs, new_playlist_lines) # earlier
                \<and> latest_segments s (name, version) = Some new_segs
                \<and> latest_playlists s (name, version)
                    = fst (entries_after s0 (name, version) earlier))
         | _ \<Rightarrow> observe s (name, version) = entries_after s0 (name, version) cycles"
    using inv by (cases pc) simp_all
  show ?thesis using a b c by blast
qed

text \<open>After the first cycle the entries are its text and its table; between the
  assignments of the second cycle the table is the new one and the text is still that of
  the first cycle.\<close>

theorem snapshot_in_two_assignments_witness:
  "reachable_with_cycles (\<lambda>base ref. Some (base @ ref)) (lit ''demo'') (lit ''v1'')
     (lit ''http://o.example/live/stream.m3u8'') initial_state
     [([lit ''http://o.example/live/seg0.ts''], [lit ''/seg/demo/v1/0''])]
     (LoopTop,
      cleanup_expired_tokens 0
        (store_playlist (lit ''demo'') (lit ''v1'') [lit ''/seg/demo/v1/0'']
          (store_segments (lit ''demo'') (lit ''v1'') [lit ''http://o.example/live/seg0.ts'']
            initial_state)))
   \<and> observe
       (cleanup_expired_tokens 0
        (store_playlist (lit ''demo'') (lit ''v1'') [lit ''/seg/demo/v1/0'']
          (store_segments (lit ''demo'') (lit ''v1'') [lit ''http://o.example/live/seg0.ts'']
            initial_state))) (lit ''demo'', lit ''v1'')
     = (Some (lit ''/seg/demo/v1/0''), Some [lit ''http://o.example/live/seg0.ts''])
   \<and> latest_segments
       (store_segments (lit ''demo'') (lit ''v1'')
        [lit ''http://o.example/live/seg1.ts'', lit ''http://o.example/live/seg2.ts'']
        (cleanup_expired_tokens 0
          (store_playlist (lit ''demo'') (lit ''v1'') [lit ''/seg/demo/v1/0'']
            (store_segments (lit ''demo'') (lit ''v1'') [lit ''http://o.example/live/seg0.ts'']
              initial_state)))) (lit ''demo'', lit ''v1'')
     = Some [lit ''http://o.example/live/seg1.ts'', lit ''http://o.example/live/seg2.ts'']
   \<and> latest_playlists
       (store_segments (lit ''demo'') (lit ''v1'')
        [lit ''http://o.example/live/seg1.ts'', lit ''http://o.example/live/seg2.ts'']
        (cleanup_expired_tokens 0
          (store_playlist (lit ''demo'') (lit ''v1'') [lit ''/seg/demo/v1/0'']
            (store_segments (lit ''demo'') (lit ''v1'') [lit ''http://o.example/live/seg0.ts'']
              initial_state)))) (lit ''demo'', lit ''v1'')
     = Some (lit ''/seg/demo/v1/0'')"
  using snapshot_in_two_assignments [OF cycles_after_first_cycle]
    snapshot_in_two_assignments [OF cycles_between_assignments]
    cycles_after_first_cycle
  by simp

text \<open>Between the two assignments of the second cycle a reader finds the text of the first
  cycle with the table of the second. The pair is not what the first cycle installed, not
  what the second installs, not the starting pair, and not what any single body gives.\<close>

theorem snapshot_not_atomic_counterexample:
  "reachable (\<lambda>base ref. Some (base @ ref)) (lit ''demo'') (lit ''v1'')
     (lit ''http://o.example/live/stream.m3u8'') initial_state
     (SegsStored [lit ''/seg/demo/v1/0'', lit ''/seg/demo/v1/1''],
      store_segments (lit ''demo'') (lit ''v1'')
        [lit ''http://o.example/live/seg1.ts'', lit ''http://o.example/live/seg2.ts'']
        (cleanup_expired_tokens 0
          (store_playlist (lit ''demo'') (lit ''v1'') [lit ''/seg/demo/v1/0'']
            (store_segments (lit ''demo'') (lit ''v1'') [lit ''http://o.example/live/seg0.ts'']
              initial_state))))
   \<and> observe
       (store_segments (lit ''demo'') (lit ''v1'')
        [lit ''http://o.example/live/seg1.ts'', lit ''http://o.example/live/seg2.ts'']
        (cleanup_expired_tokens 0
          (store_playlist (lit ''demo'') (lit ''v1'') [lit ''/seg/demo/v1/0'']
            (store_segments (lit ''demo'') (lit ''v1'') [lit ''http://o.example/live/seg0.ts'']
              initial_state)))) (lit ''demo'', lit ''v1'')
     = (Some (lit ''/seg/demo/v1/0''),
        Some [lit ''http://o.example/live/seg1.ts'', lit ''http://o.example/live/seg2.ts''])
   \<and> rewrite (\<lambda>base ref. Some (base @ ref)) (lit ''demo'') (lit ''v1'')
       (lit ''http://o.example/live/stream.m3u8'') (lit ''seg0.ts'')
     = Some ([lit ''http://o.example/live/seg0.ts''], [lit ''/seg/demo/v1/0''])
   \<and> rewrite (\<lambda>base ref. Some (base @ ref)) (lit ''demo'') (lit ''v1'')
       (lit ''http://o.example/live/stream.m3u8'') (lit ''seg1.ts'' @ [10] @ lit ''seg2.ts'')
     = Some ([lit ''http://o.example/live/seg1.ts'', lit ''http://o.example/live/seg2.ts''],
             [lit ''/seg/demo/v1/0'', lit ''/seg/demo/v1/1''])
   \<and> (Some (lit ''/seg/demo/v1/0''),
        Some [lit ''http://o.example/live/seg1.ts'', lit ''http://o.example/live/seg2.ts''])
      \<noteq> (Some (join_str [10] [lit ''/seg/demo/v1/0'']), Some [lit ''http://o.example/live/seg0.ts''])
   \<and> (Some (lit ''/seg/demo/v1/0''),
        Some [lit ''http://o.example/live/seg1.ts'', lit ''http://o.example/live/seg2.ts''])
      \<noteq> (Some (join_str [10] [lit ''/seg/demo/v1/0'', lit ''/seg/demo/v1/1'']),
          Some [lit ''http://o.example/live/seg1.ts'', lit ''http://o.example/live/seg2.ts''])
   \<and> (Some (lit ''/seg/demo/v1/0''),
        Some [lit ''http://o.example/live/seg1.ts'', lit ''http://o.example/live/seg2.ts''])
      \<noteq> observe initial_state (lit ''demo'', lit ''v1'')
   \<and> \<not> one_cycle_snapshot (\<lambda>base ref. Some (base @ ref)) (lit ''demo'') (lit ''v1'')
       (lit ''http://o.example/live/stream.m3u8'')
       (Some (lit ''/seg/demo/v1/0''),
        Some [lit ''http://o.example/live/seg1.ts'', lit ''http://o.example/live/seg2.ts''])"
proof -
  have obs: "observe
       (store_segments (lit ''demo'') (lit ''v1'')
        [lit ''http://o.example/live/seg1.ts'', lit ''http://o.example/live/seg2.ts'']
        (cleanup_expired_tokens 0
          (store_playlist (lit ''demo'') (lit ''v1'') [lit ''/seg/demo/v1/0'']
            (store_segments (lit ''demo'') (lit ''v1'') [lit ''http://o.example/live/seg0.ts'']
              initial_state)))) (lit ''demo'', lit ''v1'')
     = (Some (lit ''/seg/demo/v1/0''),
        Some [lit ''http://o.example/live/seg1.ts'', lit ''http://o.example/live/seg2.ts''])"
    by (simp add: observe_def store_segments_def store_playlist_def cleanup_caches)
  have nl: "10 \<notin> set (lit ''/seg/demo/v1/0'')"
    by (simp add: lit_def)
  have d1: "(Some (lit ''/seg/demo/v1/0''),
        Some [lit ''http://o.example/live/seg1.ts'', lit ''http://o.example/live/seg2.ts''])
      \<noteq> (Some (join_str [10] [lit ''/seg/demo/v1/0'']), Some [lit ''http://o.example/live/seg0.ts''])"
    by simp
  have d2: "(Some (lit ''/seg/demo/v1/0''),
        Some [lit ''http://o.example/live/seg1.ts'', lit ''http://o.example/live/seg2.ts''])
      \<noteq> (Some (join_str [10] [lit ''/seg/demo/v1/0'', lit ''/seg/demo/v1/1'']),
          Some [lit ''http://o.example/live/seg1.ts'', lit ''http://o.example/live/seg2.ts''])"
    by (simp add: lit_def)
  have d3: "(Some (lit ''/seg/demo/v1/0''),
        Some [lit ''http://o.example/live/seg1.ts'', lit ''http://o.example/live/seg2.ts''])
      \<noteq> observe initial_state (lit ''demo'', lit ''v1'')"
    by (simp add: observe_def initial_state_def)
  show ?thesis
    using with_cycles_reachable [OF cycles_between_assignments] obs
      rewrite_one_segment rewrite_two_segments d1 d2 d3
      not_one_cycle_snapshot [OF nl]
    by blast
qed

end
